theory Spec2Isabelle
  imports Main "HOL-Library.AList"
begin

section \<open>JavaScript values, errors and dates\<close>

text \<open>
  The values that flow through the login client: what \<open>JSON.parse\<close> can return, the
  results of \<open>URLSearchParams.get\<close> (a string or \<open>null\<close>), cookie values (a string or
  \<open>undefined\<close>) and the arguments of the public methods. Numbers are restricted to
  integers (a \<open>NaN\<close> result of an arithmetic conversion is \<open>None\<close> of \<open>int option\<close>);
  JSON arrays are not represented.
\<close>

datatype jsval =
    JUndefined
  | JNull
  | JBool bool
  | JNum int
  | JStr string
  | JObj "(string \<times> jsval) list"

text \<open>
  Every \<open>throw\<close> of the source and every exception of the platform that the source can
  run into. \<open>CodedError c\<close> is an \<open>Error\<close> whose \<open>code\<close> field was set to \<open>c\<close>;
  \<open>ProviderError m c\<close> is the error built from a 4xx response (message, code);
  \<open>HttpFailure status data\<close> is the rejection of the HTTP client.
\<close>

datatype error =
    TypeError
  | ReferenceError
  | MissingHostUrl
  | CodedError string
  | ProviderError jsval jsval
  | HttpFailure int jsval
  | StorageError
  | SyntaxError
  | InvalidCharacterError

datatype date = ValidDate int | InvalidDate

text \<open>Truthiness (\<open>ToBoolean\<close>) and strict equality on the values above.\<close>

fun truthy :: "jsval \<Rightarrow> bool" where
  "truthy JUndefined = False"
| "truthy JNull = False"
| "truthy (JBool b) = b"
| "truthy (JNum n) = (n \<noteq> 0)"
| "truthy (JStr s) = (s \<noteq> [])"
| "truthy (JObj kvs) = True"

text \<open>\<open>a || b\<close> on values.\<close>

definition js_or :: "jsval \<Rightarrow> jsval \<Rightarrow> jsval" where
  "js_or a b = (if truthy a then a else b)"

text \<open>
  Property read \<open>v.k\<close>: a \<open>TypeError\<close> on \<open>undefined\<close> and \<open>null\<close>, the own property of
  an object (or \<open>undefined\<close>), and \<open>undefined\<close> on the other primitives (none of the
  property names the client reads is a built-in property of a primitive).
\<close>

fun get_prop :: "jsval \<Rightarrow> string \<Rightarrow> error + jsval" where
  "get_prop JUndefined k = Inl TypeError"
| "get_prop JNull k = Inl TypeError"
| "get_prop (JObj kvs) k = Inr (case map_of kvs k of None \<Rightarrow> JUndefined | Some v \<Rightarrow> v)"
| "get_prop v k = Inr JUndefined"

text \<open>
  Property write \<open>v.k = x\<close> in strict mode (a class body is strict mode code): an own
  property of an object is replaced in place or appended; a write on \<open>undefined\<close>,
  \<open>null\<close> or any other primitive raises \<open>TypeError\<close>.
\<close>

fun set_prop :: "jsval \<Rightarrow> string \<Rightarrow> jsval \<Rightarrow> error + jsval" where
  "set_prop (JObj kvs) k x = Inr (JObj (AList.update k x kvs))"
| "set_prop v k x = Inl TypeError"

text \<open>
  The platform and the modules of the repository that are not part of the sources
  (\<open>./base64url\<close>, \<open>./httpClient\<close>, the \<open>cookie\<close> package), as parameters:
  \<open>None\<close> and \<open>Inl\<close> stand for a thrown exception or a rejected promise.
\<close>

text \<open>
  \<open>window.location\<close>; \<open>search\<close> is the query string as \<open>URLSearchParams\<close> reads it, a
  list of name and value pairs.
\<close>

record Location =
  hostname :: string
  host :: string
  protocol :: string
  search :: "(string \<times> string) list"

record Window =
  location :: "Location option"

datatype request =
    PostTokens jsval bool jsval jsval jsval jsval
  | PatchSession bool
  | PostAuthentication jsval jsval jsval jsval jsval jsval jsval jsval jsval

record platform =
  base64url_decode :: "jsval \<Rightarrow> string option"
  JSON_parse :: "string \<Rightarrow> jsval option"
  JSON_stringify :: "jsval \<Rightarrow> string"
  StringToNumber :: "string \<Rightarrow> int option"
  URL_host :: "string \<Rightarrow> string option"
  URL_toString :: "string \<Rightarrow> string option"
  http :: "request \<Rightarrow> error + jsval"
  cookie_assign :: "string \<Rightarrow> jsval \<Rightarrow> date \<Rightarrow> (string \<rightharpoonup> string) \<Rightarrow> error + (string \<rightharpoonup> string)"
  getAuthCodes :: "error + (string \<times> string)"
  location_href :: "Location \<Rightarrow> string"

section \<open>Strings and arrays\<close>

text \<open>\<open>String.prototype.split('.')\<close>: never the empty array.\<close>

fun split_dot :: "string \<Rightarrow> string list" where
  "split_dot [] = [[]]"
| "split_dot (c # cs) =
     (if c = CHR ''.'' then [] # split_dot cs
      else (case split_dot cs of [] \<Rightarrow> [[c]] | x # xs \<Rightarrow> (c # x) # xs))"

text \<open>\<open>Array.prototype.join('.')\<close> on an array of strings.\<close>

fun join_dot :: "string list \<Rightarrow> string" where
  "join_dot [] = []"
| "join_dot [x] = x"
| "join_dot (x # y # ys) = x @ CHR ''.'' # join_dot (y # ys)"

text \<open>
  \<open>String.prototype.toLowerCase\<close> on the ASCII letters (a host name, as the URL parser
  and \<open>location.host\<close> give it, is ASCII).
\<close>

definition toLowerCase_char :: "char \<Rightarrow> char" where
  "toLowerCase_char c =
     (if 65 \<le> (of_char c :: nat) \<and> (of_char c :: nat) \<le> 90
      then char_of ((of_char c :: nat) + 32) else c)"

definition toLowerCase :: "string \<Rightarrow> string" where
  "toLowerCase s = map toLowerCase_char s"

section \<open>The browser, the module globals and the client instance\<close>

text \<open>
  The promise held in \<open>userSessionSequencePromise\<close>: the one returned by
  \<open>this.userSessionContinuation(b)\<close>, or a promise chained behind another one with
  \<open>.catch(...).then(() => this.userSessionContinuation(b))\<close>.
\<close>

datatype promise = Continuation jsval | Then promise jsval

text \<open>
  A continuation pass suspends at most once, at \<open>await this.httpClient.post(...)\<close> of
  the code exchange (line 185) or at \<open>await this.httpClient.patch('/session', ...)\<close> of
  the silent refresh (line 228). A pass that has started has either returned (or
  thrown), or it waits for the response to its request.
\<close>

datatype stage = TokenExchange | SessionRefresh

datatype step = Returned "error + bool" | Awaits stage request

text \<open>
  What is known of a promise: the pass behind it has not started (\<open>Waiting\<close>, a
  \<open>then\<close> callback whose turn has not come), is suspended at its request (\<open>InFlight\<close>),
  or has settled with its outcome.
\<close>

datatype pass_status = Waiting | InFlight stage request | Settled "error + bool"

text \<open>\<open>window.location.assign(url)\<close> and \<open>window.open(url, '_blank')\<close>.\<close>

datatype navigation = Assign jsval | OpenTab jsval

text \<open>
  One record for everything the client reads and writes: the browser's globals
  (\<open>window\<close>, \<open>localStorage\<close> and whether it can be used, the cookies as
  \<open>cookie.parse(document.cookie)\<close> gives them, the navigations, \<open>window.onload\<close>),
  TokenStore, the requests sent to the provider, the module's globals (whether
  \<open>userSessionPromise\<close> is resolved, \<open>userSessionSequencePromise\<close>, and the status of
  the promises created so far) and the instance fields of \<open>LoginClient\<close>.
\<close>

record state =
  window :: "Window option"
  localStorageAvailable :: bool
  localStorage :: "string \<rightharpoonup> string"
  cookies :: "string \<rightharpoonup> string"
  tokenStore :: "(jsval \<times> date) option"
  requests :: "request list"
  navigations :: "navigation list"
  onloadRegistered :: bool
  userSessionResolved :: bool
  userSessionSequencePromise :: "promise option"
  status :: "promise \<rightharpoonup> pass_status"
  settings :: "(string \<times> jsval) list"
  hostUrl :: string
  lastSessionCheck :: int
  enableCredentials :: bool

section \<open>DomainPolicy: \<open>isLocalHost\<close> and \<open>getMatchingDomainInfo\<close>\<close>

definition isLocalHost :: "state \<Rightarrow> bool" where
  "isLocalHost st =
     (case window st of
        None \<Rightarrow> False
      | Some w \<Rightarrow>
          (case location w of
             None \<Rightarrow> False
           | Some loc \<Rightarrow> hostname loc = ''localhost'' \<or> hostname loc = ''127.0.0.1''))"

text \<open>
  The \<open>for\<close> loop of \<open>getMatchingDomainInfo\<close>: \<open>app\<close> is \<open>appUrlList\<close>, \<open>matched\<close> is
  \<open>reversedMatchSegments\<close>, the third argument is what is left of \<open>tokenUrlList\<close>;
  \<open>break\<close> returns the segments matched so far.
\<close>

fun match_loop :: "string list \<Rightarrow> string list \<Rightarrow> string list \<Rightarrow> string list" where
  "match_loop app matched [] = matched"
| "match_loop app matched (segment # rest) =
     (let urlToTest = join_dot (take (length matched + 1) app);
          urlToMatch = join_dot (matched @ [segment])
      in if urlToMatch \<noteq> urlToTest then matched
         else match_loop app (matched @ [segment]) rest)"

definition getMatchingDomainInfo :: "platform \<Rightarrow> state \<Rightarrow> string \<Rightarrow> error + bool" where
  "getMatchingDomainInfo P st url =
     (case URL_host P url of
        None \<Rightarrow> Inl TypeError
      | Some h \<Rightarrow>
          if isLocalHost st then Inr False
          else (case window st of
             None \<Rightarrow> Inr False
           | Some w \<Rightarrow>
               (case location w of
                  None \<Rightarrow> Inl TypeError
                | Some loc \<Rightarrow>
                    if protocol loc \<noteq> ''https:'' then Inr False
                    else
                      let tokenUrlList = rev (split_dot (toLowerCase h));
                          appUrlList = rev (split_dot (toLowerCase (host loc)));
                          reversedMatchSegments = match_loop appUrlList [] tokenUrlList
                      in if length reversedMatchSegments = length tokenUrlList
                            \<and> length reversedMatchSegments = length appUrlList
                         then Inr True
                         else if length reversedMatchSegments > 1 then Inr True
                         else Inr False)))"

text \<open>
  The decision in the specification's words: the number of labels that agree, walking
  both reversed label lists from the top-level domain inward and stopping at the first
  mismatch.
\<close>

fun matching_labels :: "string list \<Rightarrow> string list \<Rightarrow> nat" where
  "matching_labels (x # xs) (y # ys) = (if x = y then Suc (matching_labels xs ys) else 0)"
| "matching_labels xs ys = 0"


section \<open>Codec: \<open>jwtManager\<close>\<close>

definition bind :: "error + 'a \<Rightarrow> ('a \<Rightarrow> error + 'b) \<Rightarrow> error + 'b" where
  "bind r f = (case r of Inl e \<Rightarrow> Inl e | Inr v \<Rightarrow> f v)"

text \<open>\<open>try { body } catch (error) { handler }\<close>.\<close>

definition try_catch :: "error + 'a \<Rightarrow> (error \<Rightarrow> error + 'a) \<Rightarrow> error + 'a" where
  "try_catch body handler = (case body of Inl e \<Rightarrow> handler e | Inr v \<Rightarrow> Inr v)"

text \<open>
  \<open>token.split('.')[i]\<close>: a \<open>TypeError\<close> when the token is not a string (it has no
  \<open>split\<close> method), \<open>undefined\<close> when the token has too few segments.
\<close>

definition split_segment :: "jsval \<Rightarrow> nat \<Rightarrow> error + jsval" where
  "split_segment token i =
     (case token of
        JStr s \<Rightarrow>
          (let parts = split_dot s
           in Inr (if i < length parts then JStr (parts ! i) else JUndefined))
      | _ \<Rightarrow> Inl TypeError)"

text \<open>\<open>JSON.parse(base64url.decode(token.split('.')[i]))\<close>.\<close>

definition parse_segment :: "platform \<Rightarrow> jsval \<Rightarrow> nat \<Rightarrow> error + jsval" where
  "parse_segment P token i =
     bind (split_segment token i) (\<lambda>segment.
       case base64url_decode P segment of
         None \<Rightarrow> Inl InvalidCharacterError
       | Some text \<Rightarrow>
           (case JSON_parse P text of
              None \<Rightarrow> Inl SyntaxError
            | Some v \<Rightarrow> Inr v))"

definition decode :: "platform \<Rightarrow> jsval \<Rightarrow> error + jsval" where
  "decode P token =
     try_catch
       (if truthy token then parse_segment P token 1 else Inr token)
       (\<lambda>error. Inr JNull)"

definition decodeFull :: "platform \<Rightarrow> jsval \<Rightarrow> error + jsval" where
  "decodeFull P token =
     try_catch
       (if truthy token
        then bind (parse_segment P token 0) (\<lambda>header.
             bind (parse_segment P token 1) (\<lambda>payload.
               Inr (JObj [(''header'', header), (''payload'', payload)])))
        else Inr token)
       (\<lambda>error. Inr JNull)"

section \<open>TokenStore: \<open>userIdentityTokenStorageManager\<close>\<close>

text \<open>
  Modelled from the spec: \<open>userIdentityTokenStorageManager.set\<close> (the module is not
  among the sources). \<open>set(token, expiry)\<close> overwrites the single entry.
\<close>

definition TokenStore_set :: "jsval \<Rightarrow> date \<Rightarrow> state \<Rightarrow> state" where
  "TokenStore_set token expiry st = st\<lparr>tokenStore := Some (token, expiry)\<rparr>"

text \<open>
  Modelled from the spec: \<open>userIdentityTokenStorageManager.clear\<close> (the module is not
  among the sources).
\<close>

definition TokenStore_clear :: "state \<Rightarrow> state" where
  "TokenStore_clear st = st\<lparr>tokenStore := None\<rparr>"

text \<open>
  Modelled from the spec: \<open>userIdentityTokenStorageManager.get\<close> (the module is not
  among the sources). \<open>get()\<close> is \<open>null\<close> when nothing is stored and for an entry whose
  expiry has passed; an entry whose expiry is not a valid date is not returned either.
\<close>

definition TokenStore_get :: "int \<Rightarrow> state \<Rightarrow> jsval" where
  "TokenStore_get now st =
     (case tokenStore st of
        None \<Rightarrow> JNull
      | Some (token, ValidDate t) \<Rightarrow> if t \<le> now then JNull else token
      | Some (token, InvalidDate) \<Rightarrow> JNull)"

section \<open>\<open>getUserIdentity\<close>\<close>

definition getUserIdentity :: "platform \<Rightarrow> int \<Rightarrow> state \<Rightarrow> error + jsval" where
  "getUserIdentity P now st =
     (let userIdToken = TokenStore_get now st
      in bind (if truthy userIdToken then decode P userIdToken else Inr userIdToken)
           (\<lambda>userData.
              if \<not> truthy userData then Inr JNull
              else bind (get_prop userData ''sub'') (\<lambda>sub.
                     set_prop userData ''userId'' sub)))"

section \<open>Numbers and dates\<close>

text \<open>\<open>ToNumber\<close>; \<open>None\<close> is \<open>NaN\<close>.\<close>

fun to_number :: "platform \<Rightarrow> jsval \<Rightarrow> int option" where
  "to_number P JUndefined = None"
| "to_number P JNull = Some 0"
| "to_number P (JBool b) = Some (if b then 1 else 0)"
| "to_number P (JNum n) = Some n"
| "to_number P (JStr s) = StringToNumber P s"
| "to_number P (JObj kvs) = None"

text \<open>\<open>new Date(ms)\<close>: an invalid date for \<open>NaN\<close> and beyond the range of time values.\<close>

definition new_Date :: "int option \<Rightarrow> date" where
  "new_Date ms =
     (case ms of
        None \<Rightarrow> InvalidDate
      | Some t \<Rightarrow> if \<bar>t\<bar> \<le> 8640000000000000 then ValidDate t else InvalidDate)"

text \<open>\<open>new Date(Date.now() + x * 1000)\<close> and \<open>new Date(x * 1000)\<close>.\<close>

definition date_after :: "platform \<Rightarrow> int \<Rightarrow> jsval \<Rightarrow> date" where
  "date_after P now x = new_Date (map_option (\<lambda>n. now + n * 1000) (to_number P x))"

definition date_of_seconds :: "platform \<Rightarrow> jsval \<Rightarrow> date" where
  "date_of_seconds P x = new_Date (map_option (\<lambda>n. n * 1000) (to_number P x))"


section \<open>The continuation sequence: \<open>userSessionContinuation\<close>\<close>

definition AuthenticationRequestNonceKey :: string where
  "AuthenticationRequestNonceKey = ''AuthenticationRequestNonce''"

text \<open>\<open>urlSearchParams.get(name)\<close> (a string, or \<open>null\<close>) and \<open>searchParams.delete(name)\<close>.\<close>

definition url_get :: "(string \<times> string) list \<Rightarrow> string \<Rightarrow> jsval" where
  "url_get params name = (case map_of params name of None \<Rightarrow> JNull | Some v \<Rightarrow> JStr v)"

definition url_delete :: "string list \<Rightarrow> (string \<times> string) list \<Rightarrow> (string \<times> string) list" where
  "url_delete names params = filter (\<lambda>(k, v). k \<notin> set names) params"

text \<open>
  \<open>history.replaceState({}, undefined, newUrl.toString())\<close> after the deletions on
  \<open>newUrl.searchParams\<close>: the page's query string loses the named parameters.
\<close>

definition replaceState :: "string list \<Rightarrow> state \<Rightarrow> state" where
  "replaceState names st =
     st\<lparr>window := map_option
           (\<lambda>w. w\<lparr>location := map_option
                   (\<lambda>loc. loc\<lparr>search := url_delete names (search loc)\<rparr>) (location w)\<rparr>)
           (window st)\<rparr>"

text \<open>\<open>cookieManager.parse(document.cookie)[name]\<close>: a string, or \<open>undefined\<close>.\<close>

definition cookie_value :: "(string \<rightharpoonup> string) \<Rightarrow> string \<Rightarrow> jsval" where
  "cookie_value jar name = (case jar name of None \<Rightarrow> JUndefined | Some v \<Rightarrow> JStr v)"

definition userSessionResolver :: "state \<Rightarrow> state" where
  "userSessionResolver st = st\<lparr>userSessionResolved := True\<rparr>"

text \<open>\<open>localStorage.getItem(AuthenticationRequestNonceKey) || '{}'\<close>.\<close>

definition pending_item :: "state \<Rightarrow> string" where
  "pending_item st =
     (case localStorage st AuthenticationRequestNonceKey of
        None \<Rightarrow> ''{}''
      | Some s \<Rightarrow> if s = [] then ''{}'' else s)"

text \<open>
  Lines 157 to 164: the \<open>try\<close> block that reads and deletes the pending record and
  sets \<open>this.enableCredentials\<close>. An exception leaves whatever was assigned before it:
  a failing \<open>localStorage\<close> or \<open>JSON.parse\<close> leaves \<open>authRequest = {}\<close>; a parsed
  \<open>null\<close> is assigned and removed from the storage before the property read fails.
\<close>

definition load_authRequest :: "platform \<Rightarrow> state \<Rightarrow> jsval \<times> state" where
  "load_authRequest P st =
     (if \<not> localStorageAvailable st then (JObj [], st)
      else
        case JSON_parse P (pending_item st) of
             None \<Rightarrow> (JObj [], st)
           | Some authRequest \<Rightarrow>
               let st1 = st\<lparr>localStorage := (localStorage st)(AuthenticationRequestNonceKey := None)\<rparr>
               in (case get_prop authRequest ''enableCredentials'' of
                     Inl e \<Rightarrow> (authRequest, st1)
                   | Inr v \<Rightarrow> (authRequest, st1\<lparr>enableCredentials := (v \<noteq> JBool False)\<rparr>)))"

text \<open>
  \<open>expires_in && new Date(Date.now() + expires_in * 1000) || new Date(idToken.exp * 1000)\<close>:
  a \<open>Date\<close> object is truthy even when invalid, so the second operand of \<open>||\<close> is
  evaluated exactly when \<open>expires_in\<close> is falsy.
\<close>

definition token_expiry :: "platform \<Rightarrow> int \<Rightarrow> jsval \<Rightarrow> jsval \<Rightarrow> error + date" where
  "token_expiry P now expires_in idToken =
     (if truthy expires_in then Inr (date_after P now expires_in)
      else bind (get_prop idToken ''exp'') (\<lambda>exp. Inr (date_of_seconds P exp)))"

text \<open>
  Lines 186 to 189 and 231 to 234, the same four statements on \<open>tokenResult.data\<close> and
  on \<open>sessionResult.data\<close>: decode the identity token, compute the expiry, write the
  \<open>authorization\<close> cookie, store the identity token.
\<close>

definition store_tokens :: "platform \<Rightarrow> int \<Rightarrow> jsval \<Rightarrow> state \<Rightarrow> error + state" where
  "store_tokens P now data st =
     bind (get_prop data ''id_token'') (\<lambda>id_token.
     bind (decode P id_token) (\<lambda>idToken.
     bind (get_prop data ''expires_in'') (\<lambda>expires_in.
     bind (token_expiry P now expires_in idToken) (\<lambda>expiry.
     bind (get_prop data ''access_token'') (\<lambda>access_token.
     bind (cookie_assign P ''authorization'' (js_or access_token (JStr [])) expiry (cookies st))
       (\<lambda>jar.
     Inr (TokenStore_set id_token expiry (st\<lparr>cookies := jar\<rparr>))))))))"

text \<open>
  Lines 172 to 185: the authorization code exchange up to its request. The pass
  suspends at \<open>await this.httpClient.post(...)\<close>.
\<close>

definition code_exchange ::
  "platform \<Rightarrow> jsval \<Rightarrow> (string \<times> string) list \<Rightarrow> state \<Rightarrow> step \<times> state" where
  "code_exchange P authRequest urlSearchParams st =
     (case get_prop authRequest ''nonce'' of
        Inl e \<Rightarrow> (Returned (Inl e), st)
      | Inr nonce \<Rightarrow>
          if nonce \<noteq> url_get urlSearchParams ''nonce''
          then (Returned (Inl (CodedError ''InvalidNonce'')), st)
          else
            let st1 = replaceState [''nonce'', ''iss'', ''code''] st;
                code = (if url_get urlSearchParams ''code'' = JStr ''cookie''
                        then cookie_value (cookies st1) ''auth-code''
                        else url_get urlSearchParams ''code'')
            in (case get_prop authRequest ''redirectUrl'' of
                  Inl e \<Rightarrow> (Returned (Inl e), st1)
                | Inr redirectUrl \<Rightarrow>
                    (case get_prop authRequest ''codeVerifier'' of
                       Inl e \<Rightarrow> (Returned (Inl e), st1)
                     | Inr codeVerifier \<Rightarrow>
                         let request = PostTokens nonce (enableCredentials st1) redirectUrl
                               (case map_of (settings st1) ''applicationId'' of
                                  None \<Rightarrow> JUndefined | Some v \<Rightarrow> v)
                               code codeVerifier
                         in (Awaits TokenExchange request,
                             st1\<lparr>requests := requests st1 @ [request]\<rparr>))))"

text \<open>
  Lines 185 to 191, once the request has settled: a rejection is thrown on; the tokens
  of a response are stored and the session signal is resolved.
\<close>

definition code_exchange_resume ::
  "platform \<Rightarrow> int \<Rightarrow> error + jsval \<Rightarrow> state \<Rightarrow> (error + bool) \<times> state" where
  "code_exchange_resume P now response st =
     (case response of
        Inl e \<Rightarrow> (Inl e, st)
      | Inr data \<Rightarrow>
          (case store_tokens P now data st of
             Inl e \<Rightarrow> (Inl e, st)
           | Inr st1 \<Rightarrow> (Inr True, userSessionResolver st1)))"

text \<open>Lines 196 to 214: the implicit flow on a loopback host.\<close>

definition loopback_implicit ::
  "platform \<Rightarrow> int \<Rightarrow> jsval \<Rightarrow> (string \<times> string) list \<Rightarrow> state \<Rightarrow> (error + bool) \<times> state" where
  "loopback_implicit P now authRequest urlSearchParams st =
     (case get_prop authRequest ''nonce'' of
        Inl e \<Rightarrow> (Inl e, st)
      | Inr nonce \<Rightarrow>
          if truthy nonce \<and> nonce \<noteq> url_get urlSearchParams ''nonce''
          then (Inl (CodedError ''InvalidNonce''), st)
          else
            let st1 = replaceState
                        [''iss'', ''nonce'', ''expires_in'', ''access_token'', ''id_token''] st
            in (case decode P (url_get urlSearchParams ''id_token'') of
                  Inl e \<Rightarrow> (Inl e, st1)
                | Inr idToken \<Rightarrow>
                    let seconds = to_number P (url_get urlSearchParams ''expires_in'')
                    in (case (if seconds \<noteq> None \<and> seconds \<noteq> Some 0
                              then Inr (new_Date (map_option (\<lambda>n. now + n * 1000) seconds))
                              else bind (get_prop idToken ''exp'')
                                     (\<lambda>exp. Inr (date_of_seconds P exp))) of
                          Inl e \<Rightarrow> (Inl e, st1)
                        | Inr expiry \<Rightarrow>
                            (case cookie_assign P ''authorization''
                                    (js_or (url_get urlSearchParams ''access_token'') (JStr []))
                                    expiry (cookies st1) of
                               Inl e \<Rightarrow> (Inl e, st1)
                             | Inr jar \<Rightarrow>
                                 (Inr True,
                                  userSessionResolver
                                    (TokenStore_set (url_get urlSearchParams ''id_token'') expiry
                                       (st1\<lparr>cookies := jar\<rparr>)))))))"

text \<open>
  Lines 228 to 241, once the request of the silent refresh has settled: the rest of the
  \<open>try\<close> block, whose \<open>catch\<close> swallows the rejection and every exception; what was done
  before the exception stays done.
\<close>

definition silent_refresh :: "platform \<Rightarrow> int \<Rightarrow> error + jsval \<Rightarrow> state \<Rightarrow> state" where
  "silent_refresh P now response st =
     (case response of
        Inl e \<Rightarrow> st
      | Inr data \<Rightarrow>
          (case get_prop data ''access_token'' of
             Inl e \<Rightarrow> st
           | Inr access_token \<Rightarrow>
               if truthy access_token
               then (case store_tokens P now data st of Inl e \<Rightarrow> st | Inr st1 \<Rightarrow> st1)
               else
                 let idToken = cookie_value (cookies st) ''user''
                 in (case get_prop data ''expires_in'' of
                       Inl e \<Rightarrow> st
                     | Inr expires_in \<Rightarrow>
                         (case (if truthy expires_in then Inr (date_after P now expires_in)
                                else if truthy idToken
                                then bind (get_prop idToken ''exp'')
                                       (\<lambda>exp. Inr (date_of_seconds P exp))
                                else Inr (new_Date (Some (now + 86400000)))) of
                            Inl e \<Rightarrow> st
                          | Inr expiry \<Rightarrow>
                              (case get_prop data ''id_token'' of
                                 Inl e \<Rightarrow> st
                               | Inr id_token \<Rightarrow> TokenStore_set id_token expiry st)))))"

text \<open>
  Lines 219 to 228: the stored identity, then the request of the silent refresh. The
  pass suspends at \<open>await this.httpClient.patch('/session', ...)\<close>.
\<close>

definition session_check :: "platform \<Rightarrow> jsval \<Rightarrow> int \<Rightarrow> state \<Rightarrow> step \<times> state" where
  "session_check P backgroundTrigger now st =
     (case getUserIdentity P now st of
        Inl e \<Rightarrow> (Returned (Inl e), st)
      | Inr userData \<Rightarrow>
          if truthy userData then (Returned (Inr True), userSessionResolver st)
          else if \<not> isLocalHost st \<and> \<not> truthy backgroundTrigger
          then
            let request = PatchSession (enableCredentials st)
            in (Awaits SessionRefresh request, st\<lparr>requests := requests st @ [request]\<rparr>)
          else (Returned (Inr False), st))"

text \<open>Lines 228 to 249, once the request of the silent refresh has settled.\<close>

definition session_check_resume ::
  "platform \<Rightarrow> int \<Rightarrow> error + jsval \<Rightarrow> state \<Rightarrow> (error + bool) \<times> state" where
  "session_check_resume P now response st =
     (let st1 = silent_refresh P now response st
      in case getUserIdentity P now st1 of
           Inl e \<Rightarrow> (Inl e, st1)
         | Inr newUserData \<Rightarrow>
             if truthy newUserData then (Inr True, userSessionResolver st1)
             else (Inr False, st1))"

text \<open>
  \<open>userSessionContinuation\<close> from its call to its first \<open>await\<close>, or to its end when it
  does not reach one: this part runs synchronously inside the call.
\<close>

definition userSessionContinuation_begin ::
  "platform \<Rightarrow> jsval \<Rightarrow> int \<Rightarrow> state \<Rightarrow> step \<times> state" where
  "userSessionContinuation_begin P backgroundTrigger now st =
     (case window st of
        None \<Rightarrow> (Returned (Inl ReferenceError), st)
      | Some w \<Rightarrow>
          (case location w of
             None \<Rightarrow> (Returned (Inl TypeError), st)
           | Some loc \<Rightarrow>
               let urlSearchParams = search loc;
                   (authRequest, st1) = load_authRequest P st
               in if truthy (url_get urlSearchParams ''state'')
                     \<and> url_get urlSearchParams ''flow'' = JStr ''oauthLogin''
                  then (Returned (Inr False), st1)
                  else
                    (case get_prop authRequest ''nonce'' of
                       Inl e \<Rightarrow> (Returned (Inl e), st1)
                     | Inr nonce \<Rightarrow>
                         if truthy nonce \<and> truthy (url_get urlSearchParams ''code'')
                         then code_exchange P authRequest urlSearchParams st1
                         else if isLocalHost st1
                                 \<and> truthy (url_get urlSearchParams ''nonce'')
                                 \<and> truthy (url_get urlSearchParams ''access_token'')
                         then (case loopback_implicit P now authRequest urlSearchParams st1 of
                                 (r, st2) \<Rightarrow> (Returned r, st2))
                         else session_check P backgroundTrigger now st1)))"

text \<open>The rest of a suspended pass, once the response to its request is there.\<close>

definition userSessionContinuation_resume ::
  "platform \<Rightarrow> int \<Rightarrow> stage \<Rightarrow> error + jsval \<Rightarrow> state \<Rightarrow> (error + bool) \<times> state" where
  "userSessionContinuation_resume P now stage response st =
     (case stage of
        TokenExchange \<Rightarrow> code_exchange_resume P now response st
      | SessionRefresh \<Rightarrow> session_check_resume P now response st)"

text \<open>
  A whole pass of \<open>userSessionContinuation\<close>, with the response of the platform's \<open>http\<close>
  to its request.
\<close>

definition userSessionContinuation ::
  "platform \<Rightarrow> jsval \<Rightarrow> int \<Rightarrow> state \<Rightarrow> (error + bool) \<times> state" where
  "userSessionContinuation P backgroundTrigger now st =
     (case userSessionContinuation_begin P backgroundTrigger now st of
        (Returned r, st1) \<Rightarrow> (r, st1)
      | (Awaits stage request, st1) \<Rightarrow>
          userSessionContinuation_resume P now stage (http P request) st1)"

section \<open>The sequencing guard: \<open>userSessionExists\<close>\<close>

text \<open>
  A value of \<open>promise\<close> is the promise object held in \<open>userSessionSequencePromise\<close>:
  \<open>Continuation b\<close> is the promise returned by \<open>this.userSessionContinuation(b)\<close>, and
  \<open>Then p b\<close> is \<open>p.catch(() => {}).then(() => this.userSessionContinuation(b))\<close>. The
  variable is never reset to \<open>null\<close>, so \<open>Continuation\<close> is created at most once and
  every \<open>Then\<close> wraps the promise before it: two promise objects are the same object
  exactly when their terms are equal. \<open>chain p\<close> lists the promises \<open>p\<close> is built from,
  the oldest first; \<open>trigger p\<close> is the argument of the pass behind \<open>p\<close>.
\<close>

fun chain :: "promise \<Rightarrow> promise list" where
  "chain (Continuation b) = [Continuation b]"
| "chain (Then p b) = chain p @ [Then p b]"

fun trigger :: "promise \<Rightarrow> jsval" where
  "trigger (Continuation b) = b"
| "trigger (Then p b) = b"

text \<open>
  Starting the pass behind a promise: it runs to its first \<open>await\<close> (the promise is in
  flight) or to its end (the promise is settled).
\<close>

definition start :: "platform \<Rightarrow> int \<Rightarrow> promise \<Rightarrow> state \<Rightarrow> state" where
  "start P now q st =
     (case userSessionContinuation_begin P (trigger q) now st of
        (Returned r, st1) \<Rightarrow> st1\<lparr>status := (status st1)(q \<mapsto> Settled r)\<rparr>
      | (Awaits stage request, st1) \<Rightarrow>
          st1\<lparr>status := (status st1)(q \<mapsto> InFlight stage request)\<rparr>)"

text \<open>
  The \<open>then\<close> callbacks whose turn has come, in the order of the chain: a waiting promise
  starts when every promise before it has settled; a promise in flight holds back
  everything behind it.
\<close>

fun run_callbacks :: "platform \<Rightarrow> int \<Rightarrow> promise list \<Rightarrow> state \<Rightarrow> state" where
  "run_callbacks P now [] st = st"
| "run_callbacks P now (q # qs) st =
     (case status st q of
        Some (Settled r) \<Rightarrow> run_callbacks P now qs st
      | Some Waiting \<Rightarrow>
          (let st1 = start P now q st
           in case status st1 q of
                Some (Settled r) \<Rightarrow> run_callbacks P now qs st1
              | _ \<Rightarrow> st1)
      | _ \<Rightarrow> st)"

text \<open>
  \<open>userSessionExists(backgroundTrigger)\<close>. \<open>now1\<close> and \<open>now2\<close> are the results of the two
  calls of \<open>Date.now()\<close>, on lines 140 and 142. The first call of the page runs the pass
  to its first \<open>await\<close> (line 150). A chained pass (lines 146 to 148) is a \<open>then\<close>
  callback: it waits for the promise before it, and starts right after the call when
  that promise has settled already.
\<close>

definition userSessionExists ::
  "platform \<Rightarrow> jsval \<Rightarrow> int \<Rightarrow> int \<Rightarrow> state \<Rightarrow> promise \<times> state" where
  "userSessionExists P backgroundTrigger now1 now2 st =
     (let st1 = st\<lparr>lastSessionCheck := now1\<rparr>
      in case userSessionSequencePromise st1 of
           Some p \<Rightarrow>
             if now2 - lastSessionCheck st1 < 5 then (p, st1)
             else
               let q = Then p backgroundTrigger
               in (q, run_callbacks P now2 (chain q)
                        (st1\<lparr>userSessionSequencePromise := Some q,
                             status := (status st1)(q \<mapsto> Waiting)\<rparr>))
         | None \<Rightarrow>
             let q = Continuation backgroundTrigger
             in (q, start P now2 q (st1\<lparr>userSessionSequencePromise := Some q\<rparr>)))"

text \<open>
  The response to the request of the promise in flight arrives: its pass runs to its
  end, the promise settles, and the callbacks behind it get their turn.
\<close>

definition respond :: "platform \<Rightarrow> int \<Rightarrow> promise \<Rightarrow> state \<Rightarrow> state" where
  "respond P now q st =
     (case status st q of
        Some (InFlight stage request) \<Rightarrow>
          (case userSessionContinuation_resume P now stage (http P request) st of
             (r, st1) \<Rightarrow>
               let st2 = st1\<lparr>status := (status st1)(q \<mapsto> Settled r)\<rparr>
               in (case userSessionSequencePromise st2 of
                     None \<Rightarrow> st2
                   | Some s \<Rightarrow> run_callbacks P now (chain s) st2))
      | _ \<Rightarrow> st)"

definition outcome :: "state \<Rightarrow> promise \<Rightarrow> (error + bool) option" where
  "outcome st q = (case status st q of Some (Settled r) \<Rightarrow> Some r | _ \<Rightarrow> None)"

text \<open>
  \<open>await p\<close>: the responses arrive, for the promises before \<open>p\<close> and then for \<open>p\<close>, until
  \<open>p\<close> has settled; the result is its outcome and the state then. \<open>None\<close>: the promise
  never settles (no pass stands behind it).
\<close>

fun await ::
  "platform \<Rightarrow> int \<Rightarrow> promise \<Rightarrow> state \<Rightarrow> ((error + bool) \<times> state) option" where
  "await P now (Continuation b) st =
     (let st1 = respond P now (Continuation b) st
      in map_option (\<lambda>r. (r, st1)) (outcome st1 (Continuation b)))"
| "await P now (Then p b) st =
     (case outcome st (Then p b) of
        Some r \<Rightarrow> Some (r, st)
      | None \<Rightarrow>
          (case await P now p st of
             None \<Rightarrow> None
           | Some (r0, st0) \<Rightarrow>
               let st1 = respond P now (Then p b) st0
               in map_option (\<lambda>r. (r, st1)) (outcome st1 (Then p b))))"

text \<open>
  The states the client can be in: along the chain held in
  \<open>userSessionSequencePromise\<close>, settled promises come first, then at most one promise in
  flight, and only waiting promises behind a promise in flight.
\<close>

fun serialized :: "pass_status option list \<Rightarrow> bool" where
  "serialized [] = True"
| "serialized (Some (Settled r) # xs) = serialized xs"
| "serialized (Some (InFlight g q) # xs) = list_all (\<lambda>x. x = Some Waiting) xs"
| "serialized (x # xs) = False"

definition sequenced :: "state \<Rightarrow> bool" where
  "sequenced st =
     (case userSessionSequencePromise st of
        None \<Rightarrow> True
      | Some s \<Rightarrow> serialized (map (status st) (chain s)))"

text \<open>The promises of the chain whose pass is suspended at a request.\<close>

definition in_flight :: "state \<Rightarrow> promise list" where
  "in_flight st =
     (case userSessionSequencePromise st of
        None \<Rightarrow> []
      | Some s \<Rightarrow>
          filter (\<lambda>q. case status st q of Some (InFlight g r) \<Rightarrow> True | _ \<Rightarrow> False) (chain s))"

section \<open>\<open>ensureToken\<close>\<close>

text \<open>
  \<open>Object.assign({ timeoutInMillis: 5000 }, options || {}).timeoutInMillis || 0\<close>: an
  own property of \<open>options\<close> replaces the default, also when its value is \<open>undefined\<close>.
\<close>

definition timeout_option :: "jsval \<Rightarrow> jsval" where
  "timeout_option options =
     js_or (case options of
              JObj kvs \<Rightarrow> (case map_of kvs ''timeoutInMillis'' of
                             None \<Rightarrow> JNum 5000 | Some v \<Rightarrow> v)
            | _ \<Rightarrow> JNum 5000)
           (JNum 0)"

text \<open>
  The delay of \<open>setTimeout\<close> in milliseconds. The browser converts the argument to a
  signed 32-bit integer (\<open>NaN\<close> is 0, other values wrap around) and takes a negative
  delay as 0.
\<close>

definition ToInt32 :: "int \<Rightarrow> int" where
  "ToInt32 n =
     (let m = n mod 4294967296 in if 2147483648 \<le> m then m - 4294967296 else m)"

definition timer_delay :: "platform \<Rightarrow> jsval \<Rightarrow> int" where
  "timer_delay P v = (case to_number P v of None \<Rightarrow> 0 | Some n \<Rightarrow> max 0 (ToInt32 n))"

text \<open>
  \<open>Promise.race([sessionWaiterAsync, timeoutAsync])\<close>. \<open>resolvedAfter\<close> says when, in
  milliseconds after the race starts, some other activity of the page resolves the
  session signal (\<open>None\<close>: never). The wait wins when the signal is already resolved or
  is resolved before the timer fires.
\<close>

definition session_wins :: "platform \<Rightarrow> jsval \<Rightarrow> int option \<Rightarrow> state \<Rightarrow> bool" where
  "session_wins P options resolvedAfter st =
     (userSessionResolved st \<or>
      (case resolvedAfter of
         None \<Rightarrow> False
       | Some t \<Rightarrow> t < timer_delay P (timeout_option options)))"

text \<open>\<open>None\<close>: the call never returns, because the promise it awaits never settles.\<close>

definition ensureToken ::
  "platform \<Rightarrow> jsval \<Rightarrow> int \<Rightarrow> int \<Rightarrow> int \<Rightarrow> int option \<Rightarrow> state
     \<Rightarrow> ((error + jsval) \<times> state) option" where
  "ensureToken P options now1 now2 now resolvedAfter st =
     (case userSessionExists P JUndefined now1 now2 st of
        (p, st1) \<Rightarrow>
          (case await P now p st1 of
             None \<Rightarrow> None
           | Some (Inl e, st2) \<Rightarrow> Some (Inl e, st2)
           | Some (Inr exists, st2) \<Rightarrow>
               if session_wins P options resolvedAfter st2
               then
                 let authorization = cookie_value (cookies st2) ''authorization''
                 in Some (Inr (if authorization \<noteq> JStr ''undefined'' then authorization
                               else JBool False),
                          st2)
               else Some (Inl (CodedError ''TokenTimeout''), st2)))"

section \<open>\<open>authenticate\<close>\<close>

record authenticate_args =
  connectionId :: jsval
  tenantLookupIdentifier :: jsval
  redirectUrl :: jsval
  force :: jsval
  responseLocation :: jsval
  flowType :: jsval
  connectionProperties :: jsval
  openType :: jsval
  multiAccount :: jsval

text \<open>
  The \<open>catch\<close> block of lines 450 to 457: a rejection of the HTTP client with a 4xx
  status becomes the provider's error, anything else is thrown again.
\<close>

definition translate_error :: "error \<Rightarrow> error" where
  "translate_error error =
     (case error of
        HttpFailure status' data \<Rightarrow>
          if 400 \<le> status' \<and> status' < 500
          then (case get_prop data ''title'' of
                  Inl e \<Rightarrow> e
                | Inr title \<Rightarrow>
                    (case get_prop data ''errorCode'' of
                       Inl e \<Rightarrow> e
                     | Inr errorCode \<Rightarrow> ProviderError (js_or title errorCode) errorCode))
          else error
      | _ \<Rightarrow> error)"

text \<open>
  Lines 428 to 461. Modelled from the spec: \<open>jwtManager.getAuthCodes\<close> (the method is
  not in the \<open>jwtManager.js\<close> of the sources) is the platform's \<open>getAuthCodes\<close>, the PKCE
  verifier and challenge.
\<close>

definition authenticate_request ::
  "platform \<Rightarrow> authenticate_args \<Rightarrow> state \<Rightarrow> (error + bool) \<times> state" where
  "authenticate_request P a st =
     (case getAuthCodes P of
        Inl e \<Rightarrow> (Inl e, st)
      | Inr (codeVerifier, codeChallenge) \<Rightarrow>
          (case (if truthy (redirectUrl a)
                 then (case redirectUrl a of
                         JStr s \<Rightarrow> (case URL_toString P s of
                                      None \<Rightarrow> Inl TypeError | Some u \<Rightarrow> Inr (JStr u))
                       | _ \<Rightarrow> Inl TypeError)
                 else (case window st of
                         None \<Rightarrow> Inl ReferenceError
                       | Some w \<Rightarrow>
                           (case location w of
                              None \<Rightarrow> Inl TypeError
                            | Some loc \<Rightarrow> Inr (JStr (location_href P loc))))) of
             Inl e \<Rightarrow> (Inl (translate_error e), st)
           | Inr selectedRedirectUrl \<Rightarrow>
               let st1 = TokenStore_clear st;
                   request = PostAuthentication selectedRedirectUrl (JStr codeChallenge)
                               (connectionId a) (tenantLookupIdentifier a)
                               (connectionProperties a)
                               (case map_of (settings st1) ''applicationId'' of
                                  None \<Rightarrow> JUndefined | Some v \<Rightarrow> v)
                               (responseLocation a) (flowType a) (multiAccount a);
                   st2 = st1\<lparr>requests := requests st1 @ [request]\<rparr>
               in (case http P request of
                     Inl e \<Rightarrow> (Inl (translate_error e), st2)
                   | Inr data \<Rightarrow>
                       (case get_prop data ''authenticationRequestId'' of
                          Inl e \<Rightarrow> (Inl (translate_error e), st2)
                        | Inr authenticationRequestId \<Rightarrow>
                            (case get_prop data ''enableCredentials'' of
                               Inl e \<Rightarrow> (Inl (translate_error e), st2)
                             | Inr enableCredentials' \<Rightarrow>
                                 if \<not> localStorageAvailable st2
                                 then (Inl (translate_error StorageError), st2)
                                 else
                                   let item = JSON_stringify P (JObj
                                         [(''nonce'', authenticationRequestId),
                                          (''codeVerifier'', JStr codeVerifier),
                                          (''lastConnectionId'', connectionId a),
                                          (''tenantLookupIdentifier'', tenantLookupIdentifier a),
                                          (''redirectUrl'', selectedRedirectUrl),
                                          (''enableCredentials'', enableCredentials'),
                                          (''multiAccount'', multiAccount a)]);
                                       st3 = st2\<lparr>localStorage := (localStorage st2)
                                               (AuthenticationRequestNonceKey \<mapsto> item)\<rparr>
                                   in (case get_prop data ''authenticationUrl'' of
                                         Inl e \<Rightarrow> (Inl (translate_error e), st3)
                                       | Inr authenticationUrl \<Rightarrow>
                                           (case window st3 of
                                              None \<Rightarrow> (Inl (translate_error ReferenceError), st3)
                                            | Some w \<Rightarrow>
                                                if openType a = JStr ''tab''
                                                then (Inr False,
                                                      st3\<lparr>navigations := navigations st3
                                                             @ [OpenTab authenticationUrl]\<rparr>)
                                                else
                                                  (case location w of
                                                     None \<Rightarrow> (Inl (translate_error TypeError), st3)
                                                   | Some loc \<Rightarrow>
                                                       (Inr False,
                                                        st3\<lparr>navigations := navigations st3
                                                               @ [Assign authenticationUrl]\<rparr>)))))))))"

text \<open>\<open>None\<close>: the call never returns, because the promise it awaits never settles.\<close>

definition authenticate ::
  "platform \<Rightarrow> authenticate_args \<Rightarrow> int \<Rightarrow> int \<Rightarrow> int \<Rightarrow> state
     \<Rightarrow> ((error + bool) \<times> state) option" where
  "authenticate P a now1 now2 now st =
     (if truthy (responseLocation a) \<and> responseLocation a \<noteq> JStr ''cookie''
         \<and> responseLocation a \<noteq> JStr ''query'' \<and> responseLocation a \<noteq> JStr ''none''
      then Some (Inl (CodedError ''InvalidResponseLocation''), st)
      else
        (case (if \<not> truthy (force a) \<and> \<not> truthy (multiAccount a)
               then (case userSessionExists P JUndefined now1 now2 st of
                       (p, st1) \<Rightarrow> await P now p st1)
               else Some (Inr False, st)) of
           None \<Rightarrow> None
         | Some (Inl e, st2) \<Rightarrow> Some (Inl e, st2)
         | Some (Inr True, st2) \<Rightarrow> Some (Inr True, st2)
         | Some (Inr False, st2) \<Rightarrow>
             if \<not> truthy (connectionId a) \<and> \<not> truthy (tenantLookupIdentifier a)
             then Some (Inl (CodedError ''InvalidConnection''), st2)
             else Some (authenticate_request P a st2)))"

section \<open>The constructor\<close>

text \<open>\<open>hostUrl.replace(/^(https?:\/+)/, '')\<close>.\<close>

definition strip_scheme :: "string \<Rightarrow> string" where
  "strip_scheme s =
     (if take 7 s = ''https:/'' then dropWhile (\<lambda>c. c = CHR ''/'') (drop 6 s)
      else if take 6 s = ''http:/'' then dropWhile (\<lambda>c. c = CHR ''/'') (drop 5 s)
      else s)"

text \<open>
  A property of \<open>this.settings\<close>, the copy \<open>Object.assign({}, settings)\<close>: \<open>undefined\<close>
  when the settings have no such property, and when they are not an object.
\<close>

definition setting_of :: "jsval \<Rightarrow> string \<Rightarrow> jsval" where
  "setting_of settings' k =
     (case settings' of
        JObj kvs \<Rightarrow> (case map_of kvs k of None \<Rightarrow> JUndefined | Some v \<Rightarrow> v)
      | _ \<Rightarrow> JUndefined)"

text \<open>
  \<open>new LoginClient(settings, logger)\<close> on a page in state \<open>st\<close>: the state with the
  instance fields set, or the exception. \<open>new HttpClient(this.hostUrl)\<close> is taken not
  to throw.
\<close>

definition constructor :: "platform \<Rightarrow> jsval \<Rightarrow> state \<Rightarrow> error + state" where
  "constructor P settings' st =
     (let hostUrl' = js_or (js_or (setting_of settings' ''authressLoginHostUrl'')
                                  (setting_of settings' ''authenticationServiceUrl'')) (JStr [])
      in if \<not> truthy hostUrl' then Inl MissingHostUrl
         else
           (case hostUrl' of
              JStr h \<Rightarrow>
                let st1 = st\<lparr>settings := (case settings' of JObj kvs \<Rightarrow> kvs | _ \<Rightarrow> []),
                             hostUrl := ''https://'' @ strip_scheme h,
                             lastSessionCheck := 0\<rparr>
                in bind (getMatchingDomainInfo P st1 (hostUrl st1)) (\<lambda>credentials.
                     let st2 = st1\<lparr>enableCredentials := credentials\<rparr>
                     in if \<not> truthy (setting_of settings' ''skipBackgroundCredentialsCheck'')
                        then (case window st2 of
                                None \<Rightarrow> Inl ReferenceError
                              | Some w \<Rightarrow> Inr (st2\<lparr>onloadRegistered := True\<rparr>))
                        else Inr st2)
            | _ \<Rightarrow> Inl TypeError))"

section \<open>A concrete platform and pages\<close>

text \<open>
  A platform that knows two tokens (the payload of the first is
  \<open>{"sub":"u1","exp":2000}\<close>, the payload of the second is the number \<open>5\<close>), two pending
  records and one provider host.
\<close>

definition demo_platform :: platform where
  \<open>demo_platform =
     \<lparr>base64url_decode = (\<lambda>segment.
          if segment = JStr ''eyJzdWIiOiJ1MSIsImV4cCI6MjAwMH0''
          then Some ''{"sub":"u1","exp":2000}''
          else if segment = JStr ''eyJhbGciOiJub25lIn0'' then Some ''{"alg":"none"}''
          else if segment = JStr ''NQ'' then Some ''5''
          else None),
      JSON_parse = (\<lambda>text.
          if text = ''{}'' then Some (JObj [])
          else if text = ''{"sub":"u1","exp":2000}''
          then Some (JObj [(''sub'', JStr ''u1''), (''exp'', JNum 2000)])
          else if text = ''{"alg":"none"}'' then Some (JObj [(''alg'', JStr ''none'')])
          else if text = ''5'' then Some (JNum 5)
          else if text = ''{"nonce":"N1"}'' then Some (JObj [(''nonce'', JStr ''N1'')])
          else if text = ''{"nonce":"N1","enableCredentials":false}''
          then Some (JObj [(''nonce'', JStr ''N1''), (''enableCredentials'', JBool False)])
          else None),
      JSON_stringify = (\<lambda>v. ''{"nonce":"N1"}''),
      StringToNumber = (\<lambda>s. None),
      URL_host = (\<lambda>url.
          if url = ''https://login.example.com'' then Some ''login.example.com'' else None),
      URL_toString = (\<lambda>url. Some url),
      http = (\<lambda>request.
          case request of
            PatchSession c \<Rightarrow> Inr (JObj [])
          | PostAuthentication r c i t p a l f m \<Rightarrow>
              Inr (JObj [(''authenticationRequestId'', JStr ''N1''),
                         (''authenticationUrl'', JStr ''https://login.example.com/login'')])
          | PostTokens n c r a d v \<Rightarrow> Inl (HttpFailure 500 JUndefined)),
      cookie_assign = (\<lambda>name v expiry jar.
          Inr (jar(name \<mapsto> (case v of JStr s \<Rightarrow> s | _ \<Rightarrow> [])))),
      getAuthCodes = Inr (''verifier'', ''challenge''),
      location_href = (\<lambda>loc. ''https://app.example.com/'')\<rparr>\<close>

text \<open>
  A page before any client is constructed: nothing stored, no request sent, no promise
  created, the instance fields not set.
\<close>

definition fresh_page :: "Location \<Rightarrow> state" where
  "fresh_page loc =
     \<lparr>window = Some \<lparr>location = Some loc\<rparr>,
      localStorageAvailable = True,
      localStorage = Map.empty,
      cookies = Map.empty,
      tokenStore = None,
      requests = [],
      navigations = [],
      onloadRegistered = False,
      userSessionResolved = False,
      userSessionSequencePromise = None,
      status = Map.empty,
      settings = [],
      hostUrl = [],
      lastSessionCheck = 0,
      enableCredentials = False\<rparr>"

text \<open>
  The page \<open>https://app.example.com/\<close> with a given query string, and the development
  page \<open>http://localhost:8080/\<close>.
\<close>

definition app_location :: "(string \<times> string) list \<Rightarrow> Location" where
  "app_location params =
     \<lparr>hostname = ''app.example.com'', host = ''app.example.com'',
      protocol = ''https:'', search = params\<rparr>"

definition local_location :: Location where
  "local_location =
     \<lparr>hostname = ''localhost'', host = ''localhost:8080'', protocol = ''http:'', search = []\<rparr>"

text \<open>
  The settings of a client whose provider URL is given with the insecure scheme, and
  the same provider under the older name of the setting.
\<close>

definition demo_settings :: jsval where
  "demo_settings = JObj [(''authressLoginHostUrl'', JStr ''http://login.example.com''),
                         (''applicationId'', JStr ''app_1'')]"

definition demo_settings_legacy :: jsval where
  "demo_settings_legacy =
     JObj [(''authenticationServiceUrl'', JStr ''https://login.example.com''),
           (''applicationId'', JStr ''app_1''),
           (''skipBackgroundCredentialsCheck'', JBool True)]"

text \<open>
  The state the constructor leaves on \<open>https://app.example.com/\<close> with these settings
  (\<open>constructor_demo_page\<close> below): the provider and the page share two labels, so the
  credentials flag is set.
\<close>

definition demo_page :: "(string \<times> string) list \<Rightarrow> state" where
  "demo_page params =
     (fresh_page (app_location params))
       \<lparr>settings := [(''authressLoginHostUrl'', JStr ''http://login.example.com''),
                     (''applicationId'', JStr ''app_1'')],
        hostUrl := ''https://login.example.com'',
        enableCredentials := True,
        onloadRegistered := True\<rparr>"

text \<open>The same page with the pending record \<open>{"nonce":"N1"}\<close> in the storage.\<close>

definition demo_pending :: "(string \<times> string) list \<Rightarrow> state" where
  \<open>demo_pending params =
     (demo_page params)\<lparr>localStorage := [AuthenticationRequestNonceKey \<mapsto> ''{"nonce":"N1"}'']\<rparr>\<close>

text \<open>The same page with a pending record that turns the credentials off.\<close>

definition demo_pending_off :: state where
  \<open>demo_pending_off =
     (demo_page [])\<lparr>localStorage :=
        [AuthenticationRequestNonceKey \<mapsto> ''{"nonce":"N1","enableCredentials":false}'']\<rparr>\<close>

text \<open>
  A token with the header \<open>{"alg":"none"}\<close> and the payload \<open>{"sub":"u1","exp":2000}\<close>, and
  the page with this token stored until its expiry.
\<close>

definition demo_token :: string where
  "demo_token = ''eyJhbGciOiJub25lIn0.eyJzdWIiOiJ1MSIsImV4cCI6MjAwMH0.sig''"

definition demo_logged_in :: state where
  "demo_logged_in = TokenStore_set (JStr demo_token) (ValidDate 2000000) (demo_page [])"

text \<open>
  A token whose payload is the number \<open>5\<close>, and a string that is not a token, each
  stored on the page.
\<close>

definition demo_number_token :: string where
  "demo_number_token = ''eyJhbGciOiJub25lIn0.NQ.sig''"

definition demo_number_stored :: state where
  "demo_number_stored =
     TokenStore_set (JStr demo_number_token) (ValidDate 2000000) (demo_page [])"

definition demo_garbage_stored :: state where
  "demo_garbage_stored = TokenStore_set (JStr ''not-a-token'') (ValidDate 2000000) (demo_page [])"

text \<open>
  The page with the identity token in the cookie \<open>user\<close> and nothing in TokenStore.
\<close>

definition demo_cookie_session :: state where
  "demo_cookie_session = (demo_page [])\<lparr>cookies := [''user'' \<mapsto> demo_token]\<rparr>"

text \<open>
  The page a replayed callback lands on: the pending record has the nonce \<open>N1\<close>, the
  URL is \<open>?code=abc123&nonce=N2\<close>.
\<close>

definition demo_replay :: state where
  "demo_replay = demo_pending [(''code'', ''abc123''), (''nonce'', ''N2'')]"

text \<open>A call of \<open>authenticate({})\<close>: every option \<open>undefined\<close>.\<close>

definition demo_args :: authenticate_args where
  "demo_args =
     \<lparr>connectionId = JUndefined, tenantLookupIdentifier = JUndefined, redirectUrl = JUndefined,
      force = JUndefined, responseLocation = JUndefined, flowType = JUndefined,
      connectionProperties = JUndefined, openType = JUndefined, multiAccount = JUndefined\<rparr>"

text \<open>
  The page while its first session check is in flight: \<open>userSessionExists()\<close> was
  called with the clock at 1000, and the request of the silent refresh is out.
\<close>

definition demo_checking :: state where
  "demo_checking = snd (userSessionExists demo_platform JUndefined 1000 1000 (demo_page []))"

section \<open>Auxiliary notions of the proofs\<close>

text \<open>No label of a list contains the separator.\<close>

definition dotfree :: "string list \<Rightarrow> bool" where
  "dotfree xs = (\<forall>x \<in> set xs. CHR ''.'' \<notin> set x)"

text \<open>The \<open>POST /authentication\<close> requests sent so far.\<close>

fun is_PostAuthentication :: "request \<Rightarrow> bool" where
  "is_PostAuthentication (PostAuthentication r c i t p a l f m) = True"
| "is_PostAuthentication other = False"

definition authentication_requests :: "state \<Rightarrow> request list" where
  "authentication_requests st = filter is_PostAuthentication (requests st)"

text \<open>
  The lists of statuses on which the callbacks can take their turn: settled promises
  first, then either waiting promises only, or one promise in flight and waiting
  promises behind it.
\<close>

fun startable :: "pass_status option list \<Rightarrow> bool" where
  "startable [] = True"
| "startable (Some (Settled r) # xs) = startable xs"
| "startable (Some (InFlight g q) # xs) = list_all (\<lambda>x. x = Some Waiting) xs"
| "startable (Some Waiting # xs) = list_all (\<lambda>x. x = Some Waiting) xs"
| "startable (None # xs) = False"

section \<open>Strings: \<open>split\<close> and \<open>join\<close>\<close>

lemma split_dot_nonempty: "split_dot s \<noteq> []"
  by (induction s) (auto split: list.splits)

lemma split_dot_no_dot: "x \<in> set (split_dot s) \<Longrightarrow> CHR ''.'' \<notin> set x"
  by (induction s arbitrary: x) (auto split: list.splits if_splits)

lemma split_dot_label: "CHR ''.'' \<notin> set x \<Longrightarrow> split_dot x = [x]"
  by (induction x) auto

lemma split_dot_append: "CHR ''.'' \<notin> set x \<Longrightarrow> split_dot (x @ CHR ''.'' # s) = x # split_dot s"
  by (induction x) auto

lemma split_dot_join: "xs \<noteq> [] \<Longrightarrow> dotfree xs \<Longrightarrow> split_dot (join_dot xs) = xs"
  by (induction xs rule: join_dot.induct) (auto simp: dotfree_def split_dot_label split_dot_append)

lemma join_dot_inj:
  assumes "xs \<noteq> []" "ys \<noteq> []" "dotfree xs" "dotfree ys" "join_dot xs = join_dot ys"
  shows "xs = ys"
  using assms split_dot_join by metis

lemma join_dot_Cons_Cons: "join_dot ((a # x) # xs) = a # join_dot (x # xs)"
  by (cases xs) auto

lemma join_dot_Nil_Cons: "xs \<noteq> [] \<Longrightarrow> join_dot ([] # xs) = CHR ''.'' # join_dot xs"
  by (cases xs) auto

lemma join_split_dot: "join_dot (split_dot s) = s"
  by (induction s) (auto simp: join_dot_Cons_Cons join_dot_Nil_Cons split_dot_nonempty split: list.splits)

section \<open>DomainPolicy\<close>

text \<open>
  The loop keeps the invariant that the matched segments are a prefix of \<open>appUrlList\<close>;
  since no label contains a dot, comparing the joined strings is comparing the lists,
  and the loop counts the labels that agree from the top-level domain inward.
\<close>

lemma match_loop_length:
  assumes "dotfree app" "dotfree rest" "app \<noteq> []" "matched = take (length matched) app"
  shows "length (match_loop app matched rest) = length matched + matching_labels rest (drop (length matched) app)"
  using assms
proof (induction rest arbitrary: matched)
  case Nil
  then show ?case by simp
next
  case (Cons seg rest)
  let ?n = "length matched"
  have df1: "dotfree (matched @ [seg])"
    using Cons.prems unfolding dotfree_def by (metis Un_iff in_set_takeD list.set_intros(1) set_append set_ConsD empty_iff empty_set)
  have df2: "dotfree (take (?n + 1) app)"
    using Cons.prems unfolding dotfree_def by (meson in_set_takeD)
  have ne: "take (?n + 1) app \<noteq> []" using Cons.prems by (cases app) auto
  have eq: "(join_dot (matched @ [seg]) = join_dot (take (?n + 1) app)) = (matched @ [seg] = take (?n + 1) app)"
    using join_dot_inj[OF _ ne df1 df2] by auto
  show ?case
  proof (cases "matched @ [seg] = take (?n + 1) app")
    case True
    then have len: "?n < length app" by (metis Suc_eq_plus1 length_append_singleton length_take less_Suc_eq_le min.absorb_iff2 not_less_eq_eq linorder_not_le min_def)
    then have seg: "app ! ?n = seg" using True by (metis Suc_eq_plus1 nth_append_length take_Suc_conv_app_nth Cons.prems(4) append_same_eq list.inject)
    have d: "drop ?n app = seg # drop (Suc ?n) app" using len seg Cons_nth_drop_Suc[of "length matched" app] by simp
    have "dotfree rest" using Cons.prems(2) by (simp add: dotfree_def)
    moreover have "matched @ [seg] = take (length (matched @ [seg])) app" using True by (metis Suc_eq_plus1 length_append_singleton)
    ultimately have "length (match_loop app (matched @ [seg]) rest)
        = length (matched @ [seg]) + matching_labels rest (drop (length (matched @ [seg])) app)"
      using Cons.IH[of "matched @ [seg]"] Cons.prems(1,3) by blast
    then have "length (match_loop app (matched @ [seg]) rest) = Suc ?n + matching_labels rest (drop (Suc ?n) app)"
      by simp
    then show ?thesis using True eq d by simp
  next
    case False
    have "matching_labels (seg # rest) (drop ?n app) = 0"
    proof (cases "drop ?n app")
      case Nil then show ?thesis by simp
    next
      case (Cons y ys)
      then have "?n < length app" by (metis drop_all linorder_not_le list.distinct(1))
      then have "take (?n + 1) app = matched @ [y]" using Cons Cons.prems(4)
        by (metis Suc_eq_plus1 nth_via_drop take_Suc_conv_app_nth)
      then show ?thesis using False Cons by auto
    qed
    then show ?thesis using False eq by simp
  qed
qed

lemma dotfree_rev_split: "dotfree (rev (split_dot s))"
  by (simp add: dotfree_def split_dot_no_dot)

lemma matching_labels_all: "(matching_labels xs ys = length xs \<and> length xs = length ys) = (xs = ys)"
  by (induction xs ys rule: matching_labels.induct) auto

lemma match_loop_count:
  "length (match_loop (rev (split_dot a)) [] (rev (split_dot t)))
     = matching_labels (rev (split_dot t)) (rev (split_dot a))"
  using match_loop_length[of "rev (split_dot a)" "rev (split_dot t)" "[]"]
  by (simp add: dotfree_rev_split split_dot_nonempty)

text \<open>
  Claim C3. For a provider URL that parses, \<open>getMatchingDomainInfo\<close> returns false when
  there is no \<open>window\<close>; and on a page with a location it returns false when the page
  host is loopback or the page is not served over https, and otherwise true exactly when
  either every reversed label of the provider host matches and both hosts have the same
  number of labels, or at least two labels match from the top-level domain inward.
\<close>

theorem getMatchingDomainInfo_decision:
  assumes "URL_host P url = Some h"
  shows "(window st = None \<longrightarrow> getMatchingDomainInfo P st url = Inr False) \<and>
         (\<forall>w loc. window st = Some w \<and> location w = Some loc \<longrightarrow>
            getMatchingDomainInfo P st url =
              Inr (\<not> (hostname loc = ''localhost'' \<or> hostname loc = ''127.0.0.1'')
                   \<and> protocol loc = ''https:''
                   \<and> (let tokenUrlList = rev (split_dot (toLowerCase h));
                           appUrlList = rev (split_dot (toLowerCase (host loc)));
                           n = matching_labels tokenUrlList appUrlList
                       in (n = length tokenUrlList \<and> length tokenUrlList = length appUrlList)
                          \<or> 2 \<le> n)))"
proof (intro conjI allI impI)
  assume "window st = None"
  then show "getMatchingDomainInfo P st url = Inr False"
    using assms by (simp add: getMatchingDomainInfo_def isLocalHost_def)
next
  fix w loc
  assume wl: "window st = Some w \<and> location w = Some loc"
  let ?t = "rev (split_dot (toLowerCase h))"
  let ?a = "rev (split_dot (toLowerCase (host loc)))"
  have n: "length (match_loop ?a [] ?t) = matching_labels ?t ?a"
    by (rule match_loop_count)
  have two: "(1 < matching_labels ?t ?a) = (2 \<le> matching_labels ?t ?a)" by auto
  show "getMatchingDomainInfo P st url =
              Inr (\<not> (hostname loc = ''localhost'' \<or> hostname loc = ''127.0.0.1'')
                   \<and> protocol loc = ''https:''
                   \<and> (let tokenUrlList = rev (split_dot (toLowerCase h));
                           appUrlList = rev (split_dot (toLowerCase (host loc)));
                           n = matching_labels tokenUrlList appUrlList
                       in (n = length tokenUrlList \<and> length tokenUrlList = length appUrlList)
                          \<or> 2 \<le> n))"
    using assms wl
    by (simp add: getMatchingDomainInfo_def isLocalHost_def Let_def n two del: length_rev)
qed

text \<open>Equal reversed label lists are equal hosts.\<close>

lemma identical_hosts: "(rev (split_dot a) = rev (split_dot b)) = (a = b)"
  by (metis join_split_dot rev_is_rev_conv)

lemma lower_login: "toLowerCase ''login.example.com'' = ''login.example.com''"
  by (simp add: toLowerCase_def toLowerCase_char_def)
lemma lower_app: "toLowerCase ''app.example.com'' = ''app.example.com''"
  by (simp add: toLowerCase_def toLowerCase_char_def)

text \<open>
  The provider \<open>login.example.com\<close> and the page \<open>https://app.example.com\<close> share two
  labels; without a \<open>window\<close> the decision is false.
\<close>

theorem getMatchingDomainInfo_decision_witness:
  "URL_host demo_platform ''https://login.example.com'' = Some ''login.example.com''
   \<and> getMatchingDomainInfo demo_platform (demo_page []) ''https://login.example.com'' = Inr True
   \<and> getMatchingDomainInfo demo_platform ((demo_page [])\<lparr>window := None\<rparr>) ''https://login.example.com'' = Inr False"
proof -
  have h: "URL_host demo_platform ''https://login.example.com'' = Some ''login.example.com''"
    by (simp add: demo_platform_def)
  have "getMatchingDomainInfo demo_platform (demo_page []) ''https://login.example.com'' = Inr True"
    using getMatchingDomainInfo_decision[OF h, of "demo_page []"]
    by (simp add: demo_page_def fresh_page_def app_location_def lower_login lower_app)
  moreover have "getMatchingDomainInfo demo_platform ((demo_page [])\<lparr>window := None\<rparr>) ''https://login.example.com'' = Inr False"
    using getMatchingDomainInfo_decision[OF h, of "(demo_page [])\<lparr>window := None\<rparr>"]
    by simp
  ultimately show ?thesis using h by simp
qed

section \<open>Codec\<close>

lemma decode_cases:
  "decode P token =
     Inr (if truthy token
          then (case parse_segment P token 1 of Inl e \<Rightarrow> JNull | Inr v \<Rightarrow> v)
          else token)"
  by (simp add: decode_def try_catch_def split: sum.splits)

lemma decodeFull_cases:
  "decodeFull P token =
     Inr (if truthy token
          then (case parse_segment P token 0 of
                  Inl e \<Rightarrow> JNull
                | Inr header \<Rightarrow>
                    (case parse_segment P token 1 of
                       Inl e \<Rightarrow> JNull
                     | Inr payload \<Rightarrow> JObj [(''header'', header), (''payload'', payload)]))
          else token)"
  by (simp add: decodeFull_def try_catch_def bind_def split: sum.splits)

text \<open>
  Claim C8, as amended. \<open>decode\<close> and \<open>decodeFull\<close> never raise. On a truthy token they
  return what the segments parse to, and \<open>null\<close> when reading a segment throws (the
  token is not a string, base64url decoding fails, or the text is not JSON); a falsy
  token is returned as it is.
\<close>

theorem decode_total_null_on_failure:
  "(\<exists>v. decode P token = Inr v) \<and> (\<exists>v. decodeFull P token = Inr v)
   \<and> (\<forall>v. truthy token \<and> parse_segment P token 1 = Inr v \<longrightarrow> decode P token = Inr v)
   \<and> (\<forall>h v. truthy token \<and> parse_segment P token 0 = Inr h \<and> parse_segment P token 1 = Inr v
         \<longrightarrow> decodeFull P token = Inr (JObj [(''header'', h), (''payload'', v)]))
   \<and> (\<forall>e. truthy token \<and> parse_segment P token 1 = Inl e
         \<longrightarrow> decode P token = Inr JNull \<and> decodeFull P token = Inr JNull)
   \<and> (\<forall>e. truthy token \<and> parse_segment P token 0 = Inl e \<longrightarrow> decodeFull P token = Inr JNull)
   \<and> (\<not> truthy token \<longrightarrow> decode P token = Inr token \<and> decodeFull P token = Inr token)"
  by (auto simp: decode_cases decodeFull_cases split: sum.splits)

text \<open>
  When reading a segment succeeds: the token is a string, the decoder accepts the
  segment (or \<open>undefined\<close>, when the token has too few segments), and the text parses.
\<close>

lemma parse_segment_string:
  "(parse_segment P (JStr s) i = Inr v) =
     (\<exists>text. base64url_decode P (if i < length (split_dot s) then JStr (split_dot s ! i) else JUndefined)
               = Some text
            \<and> JSON_parse P text = Some v)"
  by (auto simp: parse_segment_def split_segment_def bind_def Let_def split: option.splits)

lemma parse_segment_not_string:
  "(\<forall>s. token \<noteq> JStr s) \<Longrightarrow> parse_segment P token i = Inl TypeError"
  by (cases token) (auto simp: parse_segment_def split_segment_def bind_def)

lemma split_demo_token:
  "split_dot demo_token = [''eyJhbGciOiJub25lIn0'', ''eyJzdWIiOiJ1MSIsImV4cCI6MjAwMH0'', ''sig'']"
  by (simp add: demo_token_def)

lemma parse_demo_payload:
  "parse_segment demo_platform (JStr demo_token) 1 = Inr (JObj [(''sub'', JStr ''u1''), (''exp'', JNum 2000)])"
  by (simp add: parse_segment_def split_segment_def bind_def split_demo_token demo_platform_def)

lemma parse_demo_header:
  "parse_segment demo_platform (JStr demo_token) 0 = Inr (JObj [(''alg'', JStr ''none'')])"
  by (simp add: parse_segment_def split_segment_def bind_def split_demo_token demo_platform_def)

lemma parse_demo_garbage:
  "parse_segment demo_platform (JStr ''not-a-token'') 1 = Inl InvalidCharacterError"
  by (simp add: parse_segment_def split_segment_def bind_def demo_platform_def)

lemma truthy_demo_token: "truthy (JStr demo_token)"
  by (simp add: demo_token_def)

text \<open>A token that decodes, a string that is not a token, and \<open>undefined\<close>.\<close>

theorem decode_total_null_on_failure_witness:
  "decode demo_platform (JStr demo_token) = Inr (JObj [(''sub'', JStr ''u1''), (''exp'', JNum 2000)])
   \<and> decodeFull demo_platform (JStr demo_token)
       = Inr (JObj [(''header'', JObj [(''alg'', JStr ''none'')]),
                    (''payload'', JObj [(''sub'', JStr ''u1''), (''exp'', JNum 2000)])])
   \<and> decode demo_platform (JStr ''not-a-token'') = Inr JNull
   \<and> decodeFull demo_platform (JStr ''not-a-token'') = Inr JNull
   \<and> decode demo_platform JUndefined = Inr JUndefined"
  using decode_total_null_on_failure[of demo_platform "JStr demo_token"]
        decode_total_null_on_failure[of demo_platform "JStr ''not-a-token''"]
        decode_total_null_on_failure[of demo_platform JUndefined]
        parse_demo_payload parse_demo_header parse_demo_garbage truthy_demo_token
  by simp

text \<open>
  Claim C8 as stated fails on the empty string, a malformed input: the guard
  \<open>token &&\<close> returns the empty string itself, not \<open>null\<close>.
\<close>

theorem decode_empty_string_counterexample:
  "decode demo_platform (JStr []) = Inr (JStr [])
   \<and> decodeFull demo_platform (JStr []) = Inr (JStr [])
   \<and> decode demo_platform (JStr []) \<noteq> Inr JNull"
  by (simp add: decode_def decodeFull_def try_catch_def)

section \<open>The constructor\<close>

text \<open>The decision reads the page only.\<close>

lemma getMatchingDomainInfo_window:
  "window st' = window st \<Longrightarrow> getMatchingDomainInfo P st' url = getMatchingDomainInfo P st url"
  by (auto simp: getMatchingDomainInfo_def isLocalHost_def split: option.splits)

lemma constructor_missing:
  assumes "\<not> truthy (setting_of settings' ''authressLoginHostUrl'')"
    and "\<not> truthy (setting_of settings' ''authenticationServiceUrl'')"
  shows "constructor P settings' st = Inl MissingHostUrl"
  using assms by (simp add: constructor_def js_or_def)

lemma constructor_configured:
  assumes "setting_of settings' ''authressLoginHostUrl'' = JStr h \<and> h \<noteq> []
           \<or> \<not> truthy (setting_of settings' ''authressLoginHostUrl'')
             \<and> setting_of settings' ''authenticationServiceUrl'' = JStr h \<and> h \<noteq> []"
  shows "constructor P settings' st =
     bind (getMatchingDomainInfo P st (''https://'' @ strip_scheme h)) (\<lambda>credentials.
       let st2 = st\<lparr>settings := (case settings' of JObj kvs \<Rightarrow> kvs | _ \<Rightarrow> []),
                    hostUrl := ''https://'' @ strip_scheme h,
                    lastSessionCheck := 0,
                    enableCredentials := credentials\<rparr>
       in if \<not> truthy (setting_of settings' ''skipBackgroundCredentialsCheck'')
          then (case window st of
                  None \<Rightarrow> Inl ReferenceError
                | Some w \<Rightarrow> Inr (st2\<lparr>onloadRegistered := True\<rparr>))
          else Inr st2)"
proof -
  have h: "js_or (js_or (setting_of settings' ''authressLoginHostUrl'')
                        (setting_of settings' ''authenticationServiceUrl'')) (JStr []) = JStr h"
    using assms by (auto simp: js_or_def)
  have g: "getMatchingDomainInfo P
             (st\<lparr>settings := (case settings' of JObj kvs \<Rightarrow> kvs | _ \<Rightarrow> []),
                 hostUrl := ''https://'' @ strip_scheme h, lastSessionCheck := 0\<rparr>)
             (''https://'' @ strip_scheme h)
           = getMatchingDomainInfo P st (''https://'' @ strip_scheme h)"
    by (rule getMatchingDomainInfo_window) simp
  show ?thesis
    using assms g unfolding constructor_def h Let_def
    by (auto simp: bind_def split: sum.splits)
qed

text \<open>
  Claim C10. The constructor throws when neither \<open>authressLoginHostUrl\<close> nor
  \<open>authenticationServiceUrl\<close> is supplied. When one of them is a non-empty string (the
  first takes precedence), every client the constructor returns has the host URL
  \<open>https://\<close> followed by the configured host without its scheme; and the constructor
  does return such a client, with the credentials flag DomainPolicy computes, whenever
  the page has a \<open>window\<close> and DomainPolicy returns. A leading \<open>http://\<close> or \<open>https://\<close>
  of the configured host (and any further slashes) is what is stripped.
\<close>

theorem constructor_host_url:
  "(\<not> truthy (setting_of settings' ''authressLoginHostUrl'')
      \<and> \<not> truthy (setting_of settings' ''authenticationServiceUrl'')
     \<longrightarrow> constructor P settings' st = Inl MissingHostUrl)
   \<and> (\<forall>h. (setting_of settings' ''authressLoginHostUrl'' = JStr h \<and> h \<noteq> []
            \<or> \<not> truthy (setting_of settings' ''authressLoginHostUrl'')
              \<and> setting_of settings' ''authenticationServiceUrl'' = JStr h \<and> h \<noteq> [])
         \<longrightarrow> (\<forall>st'. constructor P settings' st = Inr st' \<longrightarrow>
                  hostUrl st' = ''https://'' @ strip_scheme h
                  \<and> take 8 (hostUrl st') = ''https://'')
           \<and> (\<forall>c w. getMatchingDomainInfo P st (''https://'' @ strip_scheme h) = Inr c
                    \<and> window st = Some w \<longrightarrow>
                  (\<exists>st'. constructor P settings' st = Inr st'
                     \<and> hostUrl st' = ''https://'' @ strip_scheme h
                     \<and> enableCredentials st' = c)))
   \<and> (\<forall>rest. strip_scheme (''http://'' @ rest) = dropWhile (\<lambda>c. c = CHR ''/'') rest
             \<and> strip_scheme (''https://'' @ rest) = dropWhile (\<lambda>c. c = CHR ''/'') rest)"
proof (intro conjI allI impI)
  assume "\<not> truthy (setting_of settings' ''authressLoginHostUrl'')
      \<and> \<not> truthy (setting_of settings' ''authenticationServiceUrl'')"
  then show "constructor P settings' st = Inl MissingHostUrl"
    by (simp add: constructor_missing)
next
  fix h st'
  assume c: "setting_of settings' ''authressLoginHostUrl'' = JStr h \<and> h \<noteq> []
            \<or> \<not> truthy (setting_of settings' ''authressLoginHostUrl'')
              \<and> setting_of settings' ''authenticationServiceUrl'' = JStr h \<and> h \<noteq> []"
    and r: "constructor P settings' st = Inr st'"
  show "hostUrl st' = ''https://'' @ strip_scheme h"
    using r unfolding constructor_configured[OF c]
    by (auto simp: bind_def Let_def split: sum.splits option.splits if_splits)
  then show "take 8 (hostUrl st') = ''https://''" by simp
next
  fix h c w
  assume c: "setting_of settings' ''authressLoginHostUrl'' = JStr h \<and> h \<noteq> []
            \<or> \<not> truthy (setting_of settings' ''authressLoginHostUrl'')
              \<and> setting_of settings' ''authenticationServiceUrl'' = JStr h \<and> h \<noteq> []"
    and g: "getMatchingDomainInfo P st (''https://'' @ strip_scheme h) = Inr c
                    \<and> window st = Some w"
  show "\<exists>st'. constructor P settings' st = Inr st'
                     \<and> hostUrl st' = ''https://'' @ strip_scheme h
                     \<and> enableCredentials st' = c"
    using g unfolding constructor_configured[OF c]
    by (auto simp: bind_def Let_def)
qed (simp_all add: strip_scheme_def)

text \<open>The constructor on the three pages of the examples.\<close>

lemma demo_domain_info:
  "getMatchingDomainInfo demo_platform (fresh_page (app_location params))
     ''https://login.example.com'' = Inr True"
  "getMatchingDomainInfo demo_platform (fresh_page local_location)
     ''https://login.example.com'' = Inr False"
  by (simp_all add: getMatchingDomainInfo_def demo_platform_def fresh_page_def app_location_def
        local_location_def isLocalHost_def lower_login lower_app Let_def)

lemma demo_strip: "strip_scheme ''http://login.example.com'' = ''login.example.com''"
  "strip_scheme ''https://login.example.com'' = ''login.example.com''"
  by (simp_all add: strip_scheme_def)

lemma constructor_demo_page:
  "constructor demo_platform demo_settings (fresh_page (app_location params))
     = Inr (demo_page params)"
proof -
  have c: "setting_of demo_settings ''authressLoginHostUrl'' = JStr ''http://login.example.com''
             \<and> ''http://login.example.com'' \<noteq> []
           \<or> \<not> truthy (setting_of demo_settings ''authressLoginHostUrl'')
             \<and> setting_of demo_settings ''authenticationServiceUrl'' = JStr ''http://login.example.com''
             \<and> ''http://login.example.com'' \<noteq> []"
    by (simp add: setting_of_def demo_settings_def)
  have g: "getMatchingDomainInfo demo_platform (fresh_page (app_location params))
             (''https://'' @ strip_scheme ''http://login.example.com'') = Inr True"
    by (simp add: demo_strip demo_domain_info)
  show ?thesis
    unfolding constructor_configured[OF c] g
    by (simp add: bind_def setting_of_def demo_settings_def demo_page_def fresh_page_def
          demo_strip)
qed

text \<open>
  Empty settings are refused. On a page where no client has been constructed,
  \<open>http://login.example.com\<close> is stored as \<open>https://login.example.com\<close>, and so is the
  host given as \<open>authenticationServiceUrl\<close> only.
\<close>

theorem constructor_host_url_witness:
  "constructor demo_platform (JObj []) (fresh_page (app_location [])) = Inl MissingHostUrl
   \<and> hostUrl (fresh_page (app_location [])) = []
   \<and> (\<exists>st'. constructor demo_platform demo_settings (fresh_page (app_location [])) = Inr st'
         \<and> hostUrl st' = ''https://login.example.com'' \<and> enableCredentials st' = True)
   \<and> (\<exists>st'. constructor demo_platform demo_settings_legacy (fresh_page local_location) = Inr st'
         \<and> hostUrl st' = ''https://login.example.com'' \<and> enableCredentials st' = False)"
proof -
  have 1: "constructor demo_platform (JObj []) (fresh_page (app_location [])) = Inl MissingHostUrl"
    using constructor_host_url[of "JObj []" demo_platform "fresh_page (app_location [])",
            THEN conjunct1]
    by (simp add: setting_of_def)
  have c2: "setting_of demo_settings ''authressLoginHostUrl'' = JStr ''http://login.example.com''
              \<and> ''http://login.example.com'' \<noteq> []
            \<or> \<not> truthy (setting_of demo_settings ''authressLoginHostUrl'')
              \<and> setting_of demo_settings ''authenticationServiceUrl''
                  = JStr ''http://login.example.com''
              \<and> ''http://login.example.com'' \<noteq> []"
    by (simp add: setting_of_def demo_settings_def)
  have g2: "getMatchingDomainInfo demo_platform (fresh_page (app_location []))
              (''https://'' @ strip_scheme ''http://login.example.com'') = Inr True
            \<and> window (fresh_page (app_location [])) = Some \<lparr>location = Some (app_location [])\<rparr>"
    unfolding demo_strip by (rule conjI) (simp_all add: demo_domain_info, simp add: fresh_page_def)
  have 2: "\<exists>st'. constructor demo_platform demo_settings (fresh_page (app_location [])) = Inr st'
         \<and> hostUrl st' = ''https://login.example.com'' \<and> enableCredentials st' = True"
    using constructor_host_url[of demo_settings demo_platform "fresh_page (app_location [])",
            THEN conjunct2, THEN conjunct1, rule_format, OF c2,
            THEN conjunct2, rule_format, OF g2]
    by (simp add: demo_strip)
  have c3: "setting_of demo_settings_legacy ''authressLoginHostUrl''
                = JStr ''https://login.example.com''
              \<and> ''https://login.example.com'' \<noteq> []
            \<or> \<not> truthy (setting_of demo_settings_legacy ''authressLoginHostUrl'')
              \<and> setting_of demo_settings_legacy ''authenticationServiceUrl''
                  = JStr ''https://login.example.com''
              \<and> ''https://login.example.com'' \<noteq> []"
    by (simp add: setting_of_def demo_settings_legacy_def)
  have g3: "getMatchingDomainInfo demo_platform (fresh_page local_location)
              (''https://'' @ strip_scheme ''https://login.example.com'') = Inr False
            \<and> window (fresh_page local_location) = Some \<lparr>location = Some local_location\<rparr>"
    unfolding demo_strip by (rule conjI) (simp_all add: demo_domain_info, simp add: fresh_page_def)
  have 3: "\<exists>st'. constructor demo_platform demo_settings_legacy (fresh_page local_location) = Inr st'
         \<and> hostUrl st' = ''https://login.example.com'' \<and> enableCredentials st' = False"
    using constructor_host_url[of demo_settings_legacy demo_platform "fresh_page local_location",
            THEN conjunct2, THEN conjunct1, rule_format, OF c3,
            THEN conjunct2, rule_format, OF g3]
    by (simp add: demo_strip)
  show ?thesis using 1 2 3 by (simp add: fresh_page_def)
qed

section \<open>\<open>getUserIdentity\<close>\<close>

text \<open>
  Claim C9, as amended. \<open>getUserIdentity\<close> returns \<open>null\<close> when TokenStore yields no
  token, when reading the payload of the stored token throws, and when the payload is
  a falsy value; when the payload is an object it returns that object with \<open>userId\<close> set
  to the value of \<open>sub\<close>; when the payload is any other truthy value it raises
  \<open>TypeError\<close>.
\<close>

theorem getUserIdentity_result:
  "(\<not> truthy (TokenStore_get now st) \<longrightarrow> getUserIdentity P now st = Inr JNull)
   \<and> (\<forall>e. truthy (TokenStore_get now st) \<and> parse_segment P (TokenStore_get now st) 1 = Inl e
        \<longrightarrow> getUserIdentity P now st = Inr JNull)
   \<and> (\<forall>v. truthy (TokenStore_get now st) \<and> parse_segment P (TokenStore_get now st) 1 = Inr v
          \<and> \<not> truthy v
        \<longrightarrow> getUserIdentity P now st = Inr JNull)
   \<and> (\<forall>claims. truthy (TokenStore_get now st)
          \<and> parse_segment P (TokenStore_get now st) 1 = Inr (JObj claims)
        \<longrightarrow> (\<exists>sub. get_prop (JObj claims) ''sub'' = Inr sub
                 \<and> getUserIdentity P now st = Inr (JObj (AList.update ''userId'' sub claims))
                 \<and> get_prop (JObj (AList.update ''userId'' sub claims)) ''userId'' = Inr sub))
   \<and> (\<forall>v. truthy (TokenStore_get now st) \<and> parse_segment P (TokenStore_get now st) 1 = Inr v
          \<and> truthy v \<and> (\<forall>claims. v \<noteq> JObj claims)
        \<longrightarrow> getUserIdentity P now st = Inl TypeError)"
proof (intro conjI allI impI)
  fix v
  assume a: "truthy (TokenStore_get now st) \<and> parse_segment P (TokenStore_get now st) 1 = Inr v
          \<and> truthy v \<and> (\<forall>claims. v \<noteq> JObj claims)"
  then show "getUserIdentity P now st = Inl TypeError"
    by (cases v) (auto simp: getUserIdentity_def decode_def try_catch_def bind_def Let_def)
qed (auto simp: getUserIdentity_def decode_def try_catch_def bind_def Let_def update_conv'
       split: option.splits)

lemma demo_decode:
  "decode demo_platform (JStr demo_token) = Inr (JObj [(''sub'', JStr ''u1''), (''exp'', JNum 2000)])"
  by (simp only: decode_cases truthy_demo_token parse_demo_payload if_True sum.case)

lemma split_demo_number_token:
  "split_dot demo_number_token = [''eyJhbGciOiJub25lIn0'', ''NQ'', ''sig'']"
  by (simp add: demo_number_token_def)

lemma parse_demo_number: "parse_segment demo_platform (JStr demo_number_token) 1 = Inr (JNum 5)"
  by (simp add: parse_segment_def split_segment_def bind_def split_demo_number_token
        demo_platform_def)

lemma demo_stored:
  "TokenStore_get 1000 (demo_page []) = JNull"
  "TokenStore_get 1000 demo_logged_in = JStr demo_token"
  "TokenStore_get 2000000 demo_logged_in = JNull"
  "TokenStore_get 1000 demo_garbage_stored = JStr ''not-a-token''"
  "TokenStore_get 1000 demo_number_stored = JStr demo_number_token"
  by (simp_all add: TokenStore_get_def TokenStore_set_def demo_logged_in_def
        demo_garbage_stored_def demo_number_stored_def demo_page_def fresh_page_def)

text \<open>
  An empty TokenStore, a stored token before its expiry and after it, and a stored
  string that is not a token.
\<close>

theorem getUserIdentity_result_witness:
  "getUserIdentity demo_platform 1000 (demo_page []) = Inr JNull
   \<and> getUserIdentity demo_platform 1000 demo_logged_in
       = Inr (JObj [(''sub'', JStr ''u1''), (''exp'', JNum 2000), (''userId'', JStr ''u1'')])
   \<and> getUserIdentity demo_platform 2000000 demo_logged_in = Inr JNull
   \<and> getUserIdentity demo_platform 1000 demo_garbage_stored = Inr JNull"
proof -
  have 1: "getUserIdentity demo_platform 1000 (demo_page []) = Inr JNull"
    using getUserIdentity_result[of 1000 "demo_page []" demo_platform, THEN conjunct1]
    by (simp add: demo_stored)
  have 2: "getUserIdentity demo_platform 1000 demo_logged_in
       = Inr (JObj [(''sub'', JStr ''u1''), (''exp'', JNum 2000), (''userId'', JStr ''u1'')])"
    using getUserIdentity_result[of 1000 demo_logged_in demo_platform,
            THEN conjunct2, THEN conjunct2, THEN conjunct2, THEN conjunct1, rule_format,
            of "[(''sub'', JStr ''u1''), (''exp'', JNum 2000)]"]
          truthy_demo_token parse_demo_payload
    by (simp add: demo_stored)
  have 3: "getUserIdentity demo_platform 2000000 demo_logged_in = Inr JNull"
    using getUserIdentity_result[of 2000000 demo_logged_in demo_platform, THEN conjunct1]
    by (simp add: demo_stored)
  have 4: "getUserIdentity demo_platform 1000 demo_garbage_stored = Inr JNull"
    using getUserIdentity_result[of 1000 demo_garbage_stored demo_platform,
            THEN conjunct2, THEN conjunct1, rule_format, of InvalidCharacterError]
          parse_demo_garbage
    by (simp add: demo_stored)
  show ?thesis using 1 2 3 4 by simp
qed

text \<open>
  Claim C9 as stated fails for a stored token whose payload is not an object: the token
  decodes (to the number 5), and line 102 raises \<open>TypeError\<close> instead of returning the
  decoded claims.
\<close>

theorem getUserIdentity_number_payload_counterexample:
  "TokenStore_get 1000 demo_number_stored = JStr demo_number_token
   \<and> decode demo_platform (JStr demo_number_token) = Inr (JNum 5)
   \<and> getUserIdentity demo_platform 1000 demo_number_stored = Inl TypeError"
proof -
  have t: "truthy (JStr demo_number_token)" by (simp add: demo_number_token_def)
  have d: "decode demo_platform (JStr demo_number_token) = Inr (JNum 5)"
    by (simp only: decode_cases t parse_demo_number if_True sum.case)
  have "getUserIdentity demo_platform 1000 demo_number_stored = Inl TypeError"
    unfolding getUserIdentity_def demo_stored Let_def using t
    by (simp add: d bind_def)
  then show ?thesis using d by (simp add: demo_stored)
qed

section \<open>The continuation sequence\<close>

text \<open>Reading the pending record touches the storage and the credentials flag only.\<close>

lemma load_authRequest_frame:
  assumes "load_authRequest P st = (a, st1)"
  shows "tokenStore st1 = tokenStore st \<and> cookies st1 = cookies st
         \<and> userSessionResolved st1 = userSessionResolved st \<and> requests st1 = requests st
         \<and> window st1 = window st \<and> status st1 = status st
         \<and> userSessionSequencePromise st1 = userSessionSequencePromise st"
  using assms
  by (auto simp: load_authRequest_def pending_item_def Let_def split: if_splits option.splits sum.splits)

lemma load_authRequest_pending:
  assumes "localStorageAvailable st"
    and "localStorage st AuthenticationRequestNonceKey = Some item" and "item \<noteq> []"
    and "JSON_parse P item = Some authRequest"
  shows "fst (load_authRequest P st) = authRequest"
  using assms
  by (auto simp: load_authRequest_def pending_item_def Let_def split: if_splits option.splits sum.splits)

text \<open>
  Claim C1, as amended. On a pass in which the pending record has a truthy nonce, the
  URL carries a non-empty \<open>code\<close> and its \<open>nonce\<close> parameter differs from the record's
  nonce, and the URL does not carry a non-empty \<open>state\<close> together with
  \<open>flow=oauthLogin\<close>, the continuation raises \<open>InvalidNonce\<close>; TokenStore, the cookies,
  the session signal and the requests sent are as before the pass.
\<close>

theorem nonce_mismatch_rejected:
  assumes "window st = Some w" and "location w = Some loc"
    and "localStorageAvailable st"
    and "localStorage st AuthenticationRequestNonceKey = Some text" and "text \<noteq> []"
    and "JSON_parse P text = Some authRequest"
    and "get_prop authRequest ''nonce'' = Inr nonce" and "truthy nonce"
    and "truthy (url_get (search loc) ''code'')"
    and "nonce \<noteq> url_get (search loc) ''nonce''"
    and "\<not> (truthy (url_get (search loc) ''state'')
             \<and> url_get (search loc) ''flow'' = JStr ''oauthLogin'')"
  shows "\<exists>st'. userSessionContinuation P backgroundTrigger now st
                 = (Inl (CodedError ''InvalidNonce''), st')
          \<and> tokenStore st' = tokenStore st \<and> cookies st' = cookies st
          \<and> userSessionResolved st' = userSessionResolved st
          \<and> requests st' = requests st"
proof -
  obtain a st1 where l: "load_authRequest P st = (a, st1)" by (cases "load_authRequest P st")
  have a: "a = authRequest" using load_authRequest_pending[OF assms(3-6)] l by simp
  have "userSessionContinuation P backgroundTrigger now st = (Inl (CodedError ''InvalidNonce''), st1)"
    using assms l a
    by (auto simp: userSessionContinuation_def userSessionContinuation_begin_def
          code_exchange_def Let_def)
  then show ?thesis using load_authRequest_frame[OF l] by simp
qed

lemma AuthKey_simp [simp]: "AuthenticationRequestNonceKey \<noteq> []"
  by (simp add: AuthenticationRequestNonceKey_def)

lemma demo_page_fields:
  "window (demo_page params) = Some \<lparr>location = Some (app_location params)\<rparr>"
  "localStorageAvailable (demo_page params)" "localStorage (demo_page params) = Map.empty"
  "cookies (demo_page params) = Map.empty" "tokenStore (demo_page params) = None"
  "requests (demo_page params) = []" "status (demo_page params) = Map.empty"
  "userSessionSequencePromise (demo_page params) = None"
  "userSessionResolved (demo_page params) = False"
  "enableCredentials (demo_page params) = True"
  by (simp_all add: demo_page_def fresh_page_def)

lemma app_location_fields:
  "hostname (app_location params) = ''app.example.com''"
  "host (app_location params) = ''app.example.com''"
  "protocol (app_location params) = ''https:''"
  "search (app_location params) = params"
  by (simp_all add: app_location_def)

text \<open>The pending nonce \<open>N1\<close> against the callback \<open>?code=abc123&nonce=N2\<close>.\<close>

theorem nonce_mismatch_rejected_witness:
  "fst (userSessionContinuation demo_platform JUndefined 1000
          (demo_pending [(''code'', ''abc123''), (''nonce'', ''N2'')]))
     = Inl (CodedError ''InvalidNonce'')"
proof -
  let ?st = "demo_pending [(''code'', ''abc123''), (''nonce'', ''N2'')]"
  let ?loc = "app_location [(''code'', ''abc123''), (''nonce'', ''N2'')]"
  have 1: "window ?st = Some \<lparr>location = Some ?loc\<rparr>"
    by (simp add: demo_pending_def demo_page_fields)
  have 2: "location \<lparr>location = Some ?loc\<rparr> = Some ?loc" by simp
  have 3: "localStorageAvailable ?st" by (simp add: demo_pending_def demo_page_fields)
  obtain item where 4: "localStorage ?st AuthenticationRequestNonceKey = Some item"
    and 5: "item \<noteq> []"
    and 6: "JSON_parse demo_platform item = Some (JObj [(''nonce'', JStr ''N1'')])"
    by (simp add: demo_pending_def demo_platform_def)
  have 7: "get_prop (JObj [(''nonce'', JStr ''N1'')]) ''nonce'' = Inr (JStr ''N1'')" by simp
  have "\<exists>st'. userSessionContinuation demo_platform JUndefined 1000 ?st
                 = (Inl (CodedError ''InvalidNonce''), st')
          \<and> tokenStore st' = tokenStore ?st \<and> cookies st' = cookies ?st
          \<and> userSessionResolved st' = userSessionResolved ?st
          \<and> requests st' = requests ?st"
    by (rule nonce_mismatch_rejected[OF 1 2 3 4 5 6 7])
       (simp_all add: url_get_def app_location_fields)
  then show ?thesis by auto
qed

text \<open>
  Claim C1 as stated fails when the same callback also carries \<open>state\<close> and
  \<open>flow=oauthLogin\<close>: line 167 returns false before the nonce is compared.
\<close>

theorem nonce_mismatch_oauthLogin_counterexample:
  "get_prop (fst (load_authRequest demo_platform
       (demo_pending [(''state'', ''s1''), (''flow'', ''oauthLogin''), (''code'', ''abc123''), (''nonce'', ''N2'')])))
     ''nonce'' = Inr (JStr ''N1'')
   \<and> url_get [(''state'', ''s1''), (''flow'', ''oauthLogin''), (''code'', ''abc123''), (''nonce'', ''N2'')] ''code'' = JStr ''abc123''
   \<and> url_get [(''state'', ''s1''), (''flow'', ''oauthLogin''), (''code'', ''abc123''), (''nonce'', ''N2'')] ''nonce'' = JStr ''N2''
   \<and> fst (userSessionContinuation demo_platform JUndefined 1000
          (demo_pending [(''state'', ''s1''), (''flow'', ''oauthLogin''), (''code'', ''abc123''), (''nonce'', ''N2'')]))
       = Inr False"
  by (simp add: userSessionContinuation_def userSessionContinuation_begin_def
        load_authRequest_def pending_item_def demo_pending_def demo_page_def fresh_page_def
        app_location_def demo_platform_def url_get_def Let_def)

text \<open>Nothing after the reading of the pending record writes the credentials flag.\<close>

lemma store_tokens_enableCredentials:
  "store_tokens P now data st = Inr st' \<Longrightarrow> enableCredentials st' = enableCredentials st"
  by (auto simp: store_tokens_def bind_def TokenStore_set_def split: sum.splits)

lemma replaceState_enableCredentials [simp]:
  "enableCredentials (replaceState names st) = enableCredentials st"
  by (simp add: replaceState_def)

lemma code_exchange_enableCredentials:
  "enableCredentials (snd (code_exchange P a u st)) = enableCredentials st"
  by (auto simp: code_exchange_def Let_def split: sum.splits)

lemma code_exchange_resume_enableCredentials:
  "enableCredentials (snd (code_exchange_resume P now response st)) = enableCredentials st"
  by (auto simp: code_exchange_resume_def userSessionResolver_def
           dest: store_tokens_enableCredentials split: sum.splits)

lemma loopback_implicit_enableCredentials:
  "enableCredentials (snd (loopback_implicit P now a u st)) = enableCredentials st"
  by (auto simp: loopback_implicit_def Let_def userSessionResolver_def TokenStore_set_def
           split: sum.splits)

lemma silent_refresh_enableCredentials:
  "enableCredentials (silent_refresh P now response st) = enableCredentials st"
  by (auto simp: silent_refresh_def Let_def TokenStore_set_def
           dest: store_tokens_enableCredentials split: sum.splits)

lemma session_check_enableCredentials:
  "enableCredentials (snd (session_check P b now st)) = enableCredentials st"
  by (auto simp: session_check_def Let_def userSessionResolver_def split: sum.splits)

lemma resume_enableCredentials:
  "enableCredentials (snd (userSessionContinuation_resume P now g response st))
     = enableCredentials st"
  by (cases g)
     (auto simp: userSessionContinuation_resume_def code_exchange_resume_enableCredentials
        session_check_resume_def Let_def userSessionResolver_def
        silent_refresh_enableCredentials split: sum.splits)

lemma begin_enableCredentials:
  assumes "window st = Some w" and "location w = Some loc"
  shows "enableCredentials (snd (userSessionContinuation_begin P b now st))
           = enableCredentials (snd (load_authRequest P st))"
proof -
  obtain a st1 where l: "load_authRequest P st = (a, st1)" by (cases "load_authRequest P st")
  show ?thesis
    using assms l loopback_implicit_enableCredentials[of P now a "search loc" st1]
    by (auto simp: userSessionContinuation_begin_def Let_def code_exchange_enableCredentials
          session_check_enableCredentials split: sum.splits prod.splits)
qed

lemma continuation_enableCredentials:
  assumes "window st = Some w" and "location w = Some loc"
  shows "enableCredentials (snd (userSessionContinuation P b now st))
           = enableCredentials (snd (load_authRequest P st))"
proof -
  obtain s st1 where b: "userSessionContinuation_begin P b now st = (s, st1)"
    by (cases "userSessionContinuation_begin P b now st")
  have "enableCredentials st1 = enableCredentials (snd (load_authRequest P st))"
    using begin_enableCredentials[OF assms, of P b now] b by simp
  then show ?thesis
    using b by (cases s) (simp_all add: userSessionContinuation_def resume_enableCredentials)
qed

text \<open>
  Claim C4, as amended. After a continuation pass on a page with a location, the
  credentialed-access flag is \<open>enableCredentials !== false\<close> of the parsed pending record
  whenever the storage can be read and the item (\<open>{}\<close> when there is none) parses to a
  value other than \<open>null\<close>: false only when the field is \<open>false\<close>, true when the field
  is missing or no record exists. The flag keeps its value only when the storage or
  \<open>JSON.parse\<close> throws or the parsed value is \<open>null\<close>.
\<close>

theorem credentials_flag_after_continuation:
  assumes "window st = Some w" and "location w = Some loc"
  shows "enableCredentials (snd (userSessionContinuation P backgroundTrigger now st)) =
     (if localStorageAvailable st
      then (case JSON_parse P (pending_item st) of
              None \<Rightarrow> enableCredentials st
            | Some authRequest \<Rightarrow>
                (case get_prop authRequest ''enableCredentials'' of
                   Inl e \<Rightarrow> enableCredentials st
                 | Inr v \<Rightarrow> v \<noteq> JBool False))
      else enableCredentials st)"
  unfolding continuation_enableCredentials[OF assms]
  by (auto simp: load_authRequest_def Let_def split: option.splits sum.splits)

text \<open>
  A pending record whose field is \<open>false\<close> turns the flag off; a page where the storage
  cannot be read keeps it.
\<close>

theorem credentials_flag_after_continuation_witness:
  "enableCredentials demo_pending_off = True
   \<and> enableCredentials (snd (userSessionContinuation demo_platform JUndefined 1000
                               demo_pending_off)) = False
   \<and> enableCredentials (snd (userSessionContinuation demo_platform JUndefined 1000
                               ((demo_page [])\<lparr>localStorageAvailable := False\<rparr>))) = True"
proof -
  have w1: "window demo_pending_off = Some \<lparr>location = Some (app_location [])\<rparr>"
    by (simp add: demo_pending_off_def demo_page_fields)
  have w2: "window ((demo_page [])\<lparr>localStorageAvailable := False\<rparr>)
             = Some \<lparr>location = Some (app_location [])\<rparr>"
    by (simp add: demo_page_fields)
  have l: "location \<lparr>location = Some (app_location [])\<rparr> = Some (app_location [])" by simp
  have 1: "enableCredentials (snd (userSessionContinuation demo_platform JUndefined 1000
                               demo_pending_off)) = False"
    unfolding credentials_flag_after_continuation[OF w1 l]
    by (simp add: demo_pending_off_def demo_page_fields demo_platform_def pending_item_def)
  have 2: "enableCredentials (snd (userSessionContinuation demo_platform JUndefined 1000
                               ((demo_page [])\<lparr>localStorageAvailable := False\<rparr>))) = True"
    unfolding credentials_flag_after_continuation[OF w2 l]
    by (simp add: demo_page_fields)
  show ?thesis using 1 2 by (simp add: demo_pending_off_def demo_page_fields)
qed

text \<open>
  Claim C4 as stated fails on the development page \<open>http://localhost:8080/\<close>: the
  constructor computes the flag false from DomainPolicy, no pending record exists, and
  the first continuation pass sets the flag to true.
\<close>

theorem credentials_flag_no_record_counterexample:
  "(case constructor demo_platform demo_settings (fresh_page local_location) of
      Inl e \<Rightarrow> False
    | Inr st \<Rightarrow>
        getMatchingDomainInfo demo_platform (fresh_page local_location) (hostUrl st) = Inr False
        \<and> enableCredentials st = False
        \<and> localStorage st AuthenticationRequestNonceKey = None
        \<and> enableCredentials (snd (userSessionContinuation demo_platform JUndefined 1000 st))
            = True)"
proof -
  let ?st = "(fresh_page local_location)
       \<lparr>settings := [(''authressLoginHostUrl'', JStr ''http://login.example.com''),
                     (''applicationId'', JStr ''app_1'')],
        hostUrl := ''https://login.example.com'',
        lastSessionCheck := 0,
        enableCredentials := False,
        onloadRegistered := True\<rparr>"
  have c: "setting_of demo_settings ''authressLoginHostUrl'' = JStr ''http://login.example.com''
             \<and> ''http://login.example.com'' \<noteq> []
           \<or> \<not> truthy (setting_of demo_settings ''authressLoginHostUrl'')
             \<and> setting_of demo_settings ''authenticationServiceUrl'' = JStr ''http://login.example.com''
             \<and> ''http://login.example.com'' \<noteq> []"
    by (simp add: setting_of_def demo_settings_def)
  have g: "getMatchingDomainInfo demo_platform (fresh_page local_location)
             (''https://'' @ strip_scheme ''http://login.example.com'') = Inr False"
    by (simp add: demo_strip demo_domain_info)
  have k: "constructor demo_platform demo_settings (fresh_page local_location) = Inr ?st"
    unfolding constructor_configured[OF c] g
    by (simp add: bind_def setting_of_def demo_settings_def fresh_page_def demo_strip)
  have w: "window ?st = Some \<lparr>location = Some local_location\<rparr>"
    by (simp add: fresh_page_def)
  have l: "location \<lparr>location = Some local_location\<rparr> = Some local_location" by simp
  have f: "enableCredentials (snd (userSessionContinuation demo_platform JUndefined 1000 ?st))
            = True"
    unfolding continuation_enableCredentials[OF w l]
    by (simp add: load_authRequest_def pending_item_def fresh_page_def demo_platform_def)
  show ?thesis
    unfolding k using f by (simp add: demo_domain_info) (simp add: fresh_page_def)
qed

text \<open>
  The silent refresh when the response has no access token: what is stored is the
  response's \<open>id_token\<close>; the expiry is \<open>now + expires_in\<close> seconds, else an invalid
  date when the cookie \<open>user\<close> is set (\<open>exp\<close> is read from the cookie's string), else
  \<open>now\<close> plus 24 hours.
\<close>

lemma silent_refresh_fallback:
  assumes "get_prop data ''access_token'' = Inr access_token" and "\<not> truthy access_token"
    and "get_prop data ''expires_in'' = Inr expires_in"
    and "get_prop data ''id_token'' = Inr id_token"
  shows "tokenStore (silent_refresh P now (Inr data) st) =
           Some (id_token,
                 if truthy expires_in then date_after P now expires_in
                 else (case cookies st ''user'' of
                         None \<Rightarrow> new_Date (Some (now + 86400000))
                       | Some c \<Rightarrow> if c = [] then new_Date (Some (now + 86400000))
                                  else InvalidDate))"
  using assms
  by (auto simp: silent_refresh_def Let_def TokenStore_set_def cookie_value_def bind_def
        date_of_seconds_def new_Date_def split: option.splits)

lemma demo_cookie_session_fields:
  "window demo_cookie_session = Some \<lparr>location = Some (app_location [])\<rparr>"
  "localStorageAvailable demo_cookie_session" "localStorage demo_cookie_session = Map.empty"
  "tokenStore demo_cookie_session = None" "requests demo_cookie_session = []"
  "cookies demo_cookie_session = [''user'' \<mapsto> demo_token]"
  "enableCredentials demo_cookie_session = True"
  by (simp_all add: demo_cookie_session_def demo_page_fields)

text \<open>
  Claim C5, at the failing input: the cookie \<open>user\<close> holds a token whose \<open>exp\<close> claim is
  2000, and \<open>PATCH /session\<close> answers \<open>{}\<close>. The pass stores \<open>undefined\<close> with an
  invalid date, where the claim expects the cookie's token with the expiry of its claim.
\<close>

theorem cookie_fallback_stores_response_token:
  "cookies demo_cookie_session ''user'' = Some demo_token
   \<and> decode demo_platform (JStr demo_token) = Inr (JObj [(''sub'', JStr ''u1''), (''exp'', JNum 2000)])
   \<and> http demo_platform (PatchSession True) = Inr (JObj [])
   \<and> userSessionContinuation demo_platform JUndefined 1000 demo_cookie_session
       = (Inr False,
          demo_cookie_session\<lparr>localStorage := Map.empty, enableCredentials := True,
            requests := [PatchSession True], tokenStore := Some (JUndefined, InvalidDate)\<rparr>)"
proof -
  let ?st1 = "demo_cookie_session\<lparr>localStorage := Map.empty, enableCredentials := True\<rparr>"
  let ?st2 = "?st1\<lparr>requests := [PatchSession True]\<rparr>"
  have l: "load_authRequest demo_platform demo_cookie_session = (JObj [], ?st1)"
    by (simp add: load_authRequest_def pending_item_def demo_cookie_session_fields
          demo_platform_def)
  have il: "\<not> isLocalHost ?st1"
    by (simp add: isLocalHost_def demo_cookie_session_fields app_location_fields)
  have s: "session_check demo_platform JUndefined 1000 ?st1
             = (Awaits SessionRefresh (PatchSession True), ?st2)"
    using il
    by (simp add: session_check_def getUserIdentity_def TokenStore_get_def bind_def
          demo_cookie_session_fields Let_def)
  have b: "userSessionContinuation_begin demo_platform JUndefined 1000 demo_cookie_session
             = (Awaits SessionRefresh (PatchSession True), ?st2)"
    using il
    by (simp add: userSessionContinuation_begin_def demo_cookie_session_fields l s
          url_get_def app_location_fields)
  have h: "http demo_platform (PatchSession True) = Inr (JObj [])"
    by (simp add: demo_platform_def)
  have r: "session_check_resume demo_platform 1000 (Inr (JObj [])) ?st2
             = (Inr False, ?st2\<lparr>tokenStore := Some (JUndefined, InvalidDate)\<rparr>)"
    by (simp add: session_check_resume_def silent_refresh_def cookie_value_def bind_def
          date_of_seconds_def new_Date_def TokenStore_set_def getUserIdentity_def
          TokenStore_get_def demo_cookie_session_fields demo_token_def)
  have "userSessionContinuation demo_platform JUndefined 1000 demo_cookie_session
       = (Inr False, ?st2\<lparr>tokenStore := Some (JUndefined, InvalidDate)\<rparr>)"
    by (simp add: userSessionContinuation_def b h userSessionContinuation_resume_def r)
  then show ?thesis
    using demo_decode h by (simp add: demo_cookie_session_fields)
qed

section \<open>The sequencing guard\<close>

text \<open>The chain of a promise: it ends in the promise, has no promise twice, and each
  chained promise stands right behind the promise it wraps.\<close>

lemma chain_last: "\<exists>xs. chain p = xs @ [p]"
  by (cases p) auto

lemma chain_size: "q \<in> set (chain p) \<Longrightarrow> size q \<le> size p"
  by (induction p) auto

lemma chain_fresh: "Then p b \<notin> set (chain p)"
  using chain_size[of "Then p b" p] by auto

lemma chain_distinct: "distinct (chain p)"
  by (induction p) (auto simp: chain_fresh)

lemma chain_head: "Continuation b \<in> set (chain s) \<Longrightarrow> \<exists>ys. chain s = Continuation b # ys"
  by (induction s) auto

lemma chain_pred:
  "Then p b \<in> set (chain s) \<Longrightarrow> \<exists>xs ys. chain s = xs @ p # Then p b # ys"
proof (induction s)
  case (Continuation c)
  then show ?case by simp
next
  case (Then s' c)
  show ?case
  proof (cases "Then p b = Then s' c")
    case True
    obtain xs where "chain s' = xs @ [s']" using chain_last by blast
    then have "chain (Then s' c) = xs @ p # Then p b # []" using True by simp
    then show ?thesis by blast
  next
    case False
    then have "Then p b \<in> set (chain s')" using Then.prems by auto
    then obtain xs ys where "chain s' = xs @ p # Then p b # ys" using Then.IH by blast
    then have "chain (Then s' c) = xs @ p # Then p b # (ys @ [Then s' c])" by simp
    then show ?thesis by blast
  qed
qed

text \<open>Facts on the lists of statuses.\<close>

lemma waiting_startable: "list_all (\<lambda>x. x = Some Waiting) xs \<Longrightarrow> startable xs"
  by (cases xs) auto

lemma serialized_startable: "serialized xs \<Longrightarrow> startable xs"
  by (induction xs rule: serialized.induct) auto

lemma serialized_snoc_waiting: "serialized xs \<Longrightarrow> startable (xs @ [Some Waiting])"
  by (induction xs rule: serialized.induct) auto

lemma serialized_head:
  "serialized (x # xs) \<Longrightarrow> (\<exists>r. x = Some (Settled r)) \<or> (\<exists>g q. x = Some (InFlight g q))"
  by (cases "x # xs" rule: serialized.cases) auto

lemma serialized_next:
  "serialized (map f (xs @ p # q # ys)) \<Longrightarrow> f p = Some (Settled r)
     \<Longrightarrow> (\<exists>r'. f q = Some (Settled r')) \<or> (\<exists>g' q'. f q = Some (InFlight g' q'))"
proof (induction xs)
  case Nil
  then show ?case using serialized_head[of "f q" "map f ys"] by simp
next
  case (Cons x xs)
  from Cons.prems(1) show ?case
  proof (cases "map f ((x # xs) @ p # q # ys)" rule: serialized.cases)
    case (2 r' zs)
    then show ?thesis using Cons by auto
  next
    case (3 g' q' zs)
    then show ?thesis using Cons.prems by auto
  qed (use Cons.prems in auto)
qed

lemma serialized_settle:
  "serialized (map f qs) \<Longrightarrow> distinct qs \<Longrightarrow> f q = Some (InFlight g req)
     \<Longrightarrow> startable (map (f(q \<mapsto> Settled r)) qs)"
proof (induction qs)
  case Nil
  then show ?case by simp
next
  case (Cons x qs)
  show ?case
  proof (cases "x = q")
    case True
    then have "q \<notin> set qs" using Cons.prems(2) by simp
    then have m: "map (f(q \<mapsto> Settled r)) qs = map f qs" by (induction qs) auto
    have "list_all (\<lambda>x. x = Some Waiting) (map f qs)" using Cons.prems True by simp
    then have "startable (map f qs)" by (rule waiting_startable)
    moreover have "map (f(q \<mapsto> Settled r)) (x # qs) = Some (Settled r) # map f qs"
      by (simp only: list.map True fun_upd_same m)
    ultimately show ?thesis by (simp only: startable.simps)
  next
    case False
    show ?thesis
    proof (cases "q \<in> set qs")
      case True
      have "\<exists>r'. f x = Some (Settled r')"
        using serialized_head[of "f x" "map f qs"] Cons.prems True
        by (auto simp: list_all_iff)
      then show ?thesis using Cons False by auto
    next
      case q: False
      then have m: "map (f(q \<mapsto> Settled r)) (x # qs) = map f (x # qs)"
        using False by (induction qs) auto
      show ?thesis unfolding m using Cons.prems(1) by (rule serialized_startable)
    qed
  qed
qed

lemma serialized_last_in_flight:
  "serialized (map f (xs @ [p])) \<Longrightarrow> f p = Some (InFlight g req)
     \<Longrightarrow> filter (\<lambda>q. case f q of Some (InFlight g r) \<Rightarrow> True | _ \<Rightarrow> False) (xs @ [p]) = [p]
         \<and> (\<forall>x \<in> set xs. \<exists>r. f x = Some (Settled r))"
proof (induction xs)
  case Nil
  then show ?case by simp
next
  case (Cons x xs)
  have "\<exists>r'. f x = Some (Settled r')"
    using serialized_head[of "f x" "map f (xs @ [p])"] Cons.prems by (auto simp: list_all_iff)
  then show ?case using Cons by auto
qed



text \<open>A pass of the continuation writes neither the promise variable nor a status.\<close>

lemma store_tokens_frame:
  "store_tokens P now data st = Inr st'
     \<Longrightarrow> status st' = status st
         \<and> userSessionSequencePromise st' = userSessionSequencePromise st
         \<and> requests st' = requests st"
  by (auto simp: store_tokens_def bind_def TokenStore_set_def split: sum.splits)

lemma replaceState_frame [simp]:
  "status (replaceState names st) = status st"
  "userSessionSequencePromise (replaceState names st) = userSessionSequencePromise st"
  "requests (replaceState names st) = requests st"
  by (simp_all add: replaceState_def)

lemma code_exchange_frame:
  "status (snd (code_exchange P a u st)) = status st
   \<and> userSessionSequencePromise (snd (code_exchange P a u st)) = userSessionSequencePromise st"
  by (auto simp: code_exchange_def Let_def split: sum.splits)

lemma loopback_implicit_frame:
  "status (snd (loopback_implicit P now a u st)) = status st
   \<and> userSessionSequencePromise (snd (loopback_implicit P now a u st))
       = userSessionSequencePromise st"
  by (auto simp: loopback_implicit_def Let_def userSessionResolver_def TokenStore_set_def
           split: sum.splits)

lemma session_check_frame:
  "status (snd (session_check P b now st)) = status st
   \<and> userSessionSequencePromise (snd (session_check P b now st)) = userSessionSequencePromise st"
  by (auto simp: session_check_def Let_def userSessionResolver_def split: sum.splits)

lemma begin_frame:
  "status (snd (userSessionContinuation_begin P b now st)) = status st
   \<and> userSessionSequencePromise (snd (userSessionContinuation_begin P b now st))
       = userSessionSequencePromise st"
proof -
  obtain a st1 where l: "load_authRequest P st = (a, st1)" by (cases "load_authRequest P st")
  note f = load_authRequest_frame[OF l]
  show ?thesis
  proof (cases "window st")
    case None
    then show ?thesis by (simp add: userSessionContinuation_begin_def)
  next
    case (Some w)
    show ?thesis
    proof (cases "location w")
      case None
      then show ?thesis using Some by (simp add: userSessionContinuation_begin_def)
    next
      case (Some loc)
      then show ?thesis
        using \<open>window st = Some w\<close> l f code_exchange_frame[of P a "search loc" st1]
          loopback_implicit_frame[of P now a "search loc" st1] session_check_frame[of P b now st1]
        by (auto simp: userSessionContinuation_begin_def Let_def
              split: sum.splits prod.splits)
    qed
  qed
qed

lemma code_exchange_resume_frame:
  "status (snd (code_exchange_resume P now response st)) = status st
   \<and> userSessionSequencePromise (snd (code_exchange_resume P now response st))
       = userSessionSequencePromise st
   \<and> requests (snd (code_exchange_resume P now response st)) = requests st"
  by (auto simp: code_exchange_resume_def userSessionResolver_def
           dest: store_tokens_frame split: sum.splits)

lemma silent_refresh_frame:
  "status (silent_refresh P now response st) = status st
   \<and> userSessionSequencePromise (silent_refresh P now response st)
       = userSessionSequencePromise st
   \<and> requests (silent_refresh P now response st) = requests st"
  by (auto simp: silent_refresh_def Let_def TokenStore_set_def
           dest: store_tokens_frame split: sum.splits)

lemma resume_frame:
  "status (snd (userSessionContinuation_resume P now g response st)) = status st
   \<and> userSessionSequencePromise (snd (userSessionContinuation_resume P now g response st))
       = userSessionSequencePromise st
   \<and> requests (snd (userSessionContinuation_resume P now g response st)) = requests st"
  by (cases g)
     (auto simp: userSessionContinuation_resume_def code_exchange_resume_frame
        session_check_resume_def Let_def userSessionResolver_def silent_refresh_frame
        split: sum.splits)

text \<open>Starting a pass sets the status of its promise, and nothing else of the chain.\<close>

lemma start_promise [simp]:
  "userSessionSequencePromise (start P now q st) = userSessionSequencePromise st"
  using begin_frame[of P "trigger q" now st]
  by (auto simp: start_def split: prod.splits step.splits)

lemma start_status:
  "\<exists>x. x \<noteq> Waiting \<and> status (start P now q st) = (status st)(q \<mapsto> x)"
  using begin_frame[of P "trigger q" now st]
  by (auto simp: start_def split: prod.splits step.splits)

lemma run_callbacks_promise [simp]:
  "userSessionSequencePromise (run_callbacks P now qs st) = userSessionSequencePromise st"
proof (induction qs arbitrary: st)
  case Nil
  then show ?case by simp
next
  case (Cons q qs)
  show ?case
    by (auto simp: Cons Let_def split: option.splits pass_status.splits)
qed

lemma run_callbacks_other:
  "q \<notin> set qs \<or> status st q \<noteq> Some Waiting
     \<Longrightarrow> status (run_callbacks P now qs st) q = status st q"
proof (induction qs arbitrary: st)
  case Nil
  then show ?case by simp
next
  case (Cons x qs)
  show ?case
  proof (cases "status st x")
    case None
    then show ?thesis by simp
  next
    case (Some y)
    show ?thesis
    proof (cases y)
      case Waiting
      then have ne: "x \<noteq> q" using Cons.prems Some by auto
      obtain z where z: "z \<noteq> Waiting" "status (start P now x st) = (status st)(x \<mapsto> z)"
        using start_status by blast
      have s: "status (start P now x st) q = status st q" using z ne by simp
      have "q \<notin> set qs \<or> status (start P now x st) q \<noteq> Some Waiting"
        using Cons.prems s by auto
      then have "status (run_callbacks P now qs (start P now x st)) q = status st q"
        using Cons.IH[of "start P now x st"] s by simp
      then show ?thesis
        using Some Waiting s
        by (auto simp: Let_def split: option.splits pass_status.splits)
    next
      case (InFlight g r)
      then show ?thesis using Some by simp
    next
      case (Settled r)
      have "q \<notin> set qs \<or> status st q \<noteq> Some Waiting" using Cons.prems by auto
      then show ?thesis using Some Settled Cons.IH[of st] by simp
    qed
  qed
qed

lemma map_status_other:
  "q \<notin> set qs \<Longrightarrow> map (f(q \<mapsto> x)) qs = map f qs"
  by (induction qs) auto

lemma run_callbacks_serialized:
  "distinct qs \<Longrightarrow> startable (map (status st) qs)
     \<Longrightarrow> serialized (map (status (run_callbacks P now qs st)) qs)"
proof (induction qs arbitrary: st)
  case Nil
  then show ?case by simp
next
  case (Cons x qs)
  have d: "x \<notin> set qs" "distinct qs" using Cons.prems(1) by auto
  show ?case
  proof (cases "status st x")
    case None
    then show ?thesis using Cons.prems(2) by simp
  next
    case (Some y)
    show ?thesis
    proof (cases y)
      case Waiting
      have w: "list_all (\<lambda>x. x = Some Waiting) (map (status st) qs)"
        using Cons.prems(2) Some Waiting by simp
      obtain z where z: "z \<noteq> Waiting" "status (start P now x st) = (status st)(x \<mapsto> z)"
        using start_status by blast
      have m: "map (status (start P now x st)) qs = map (status st) qs"
        unfolding z(2) using d(1) by (rule map_status_other)
      show ?thesis
      proof (cases z)
        case Waiting
        then show ?thesis using z by simp
      next
        case (InFlight g r)
        have e: "run_callbacks P now (x # qs) st = start P now x st"
          using Some \<open>y = Waiting\<close> z InFlight by (simp add: Let_def)
        have sx: "status (start P now x st) x = Some (InFlight g r)"
          using z InFlight by simp
        show ?thesis unfolding e list.map sx m using w by simp
      next
        case (Settled r)
        have r: "run_callbacks P now (x # qs) st = run_callbacks P now qs (start P now x st)"
          using Some \<open>y = Waiting\<close> z Settled by (simp add: Let_def)
        have "startable (map (status (start P now x st)) qs)"
          unfolding m using w by (rule waiting_startable)
        then have i: "serialized (map (status (run_callbacks P now qs (start P now x st))) qs)"
          using Cons.IH[OF d(2)] by simp
        have "status (run_callbacks P now qs (start P now x st)) x = Some (Settled r)"
          using run_callbacks_other[of x qs "start P now x st" P now] d(1) z Settled by simp
        then show ?thesis unfolding r using i by simp
      qed
    next
      case (InFlight g r)
      then show ?thesis using Some Cons.prems(2) by simp
    next
      case (Settled r)
      have "serialized (map (status (run_callbacks P now qs st)) qs)"
        using Cons.IH[OF d(2), of st] Cons.prems(2) Some Settled by simp
      moreover have "status (run_callbacks P now qs st) x = Some (Settled r)"
        using run_callbacks_other[of x qs st P now] d(1) Some Settled by simp
      ultimately show ?thesis using Some Settled by simp
    qed
  qed
qed


lemma run_callbacks_settled:
  "\<forall>q \<in> set qs. \<exists>r. status st q = Some (Settled r) \<Longrightarrow> run_callbacks P now qs st = st"
  by (induction qs) auto

text \<open>The arrival of a response keeps the chain serialized and settles its promise.\<close>

lemma sequenced_lastSessionCheck [simp]:
  "sequenced (st\<lparr>lastSessionCheck := n\<rparr>) = sequenced st"
  by (simp add: sequenced_def split: option.splits)

lemma in_flight_lastSessionCheck [simp]:
  "in_flight (st\<lparr>lastSessionCheck := n\<rparr>) = in_flight st"
  by (simp add: in_flight_def split: option.splits)


lemma respond_promise [simp]:
  "userSessionSequencePromise (respond P now q st) = userSessionSequencePromise st"
proof (cases "status st q")
  case None
  then show ?thesis by (simp add: respond_def)
next
  case (Some y)
  show ?thesis
  proof (cases y)
    case (InFlight g req)
    obtain r st1 where u: "userSessionContinuation_resume P now g (http P req) st = (r, st1)"
      by (cases "userSessionContinuation_resume P now g (http P req) st")
    show ?thesis
      using Some InFlight u resume_frame[of P now g "http P req" st]
      by (simp add: respond_def Let_def split: option.splits)
  qed (use Some in \<open>simp_all add: respond_def\<close>)
qed

lemma respond_idle:
  "(\<And>g req. status st q \<noteq> Some (InFlight g req)) \<Longrightarrow> respond P now q st = st"
  by (auto simp: respond_def split: option.splits pass_status.splits)

lemma respond_in_flight:
  assumes "status st q = Some (InFlight g req)"
    and "userSessionContinuation_resume P now g (http P req) st = (r, st1)"
  shows "respond P now q st =
           (case userSessionSequencePromise st of
              None \<Rightarrow> st1\<lparr>status := (status st)(q \<mapsto> Settled r)\<rparr>
            | Some s \<Rightarrow> run_callbacks P now (chain s)
                         (st1\<lparr>status := (status st)(q \<mapsto> Settled r)\<rparr>))"
  using assms resume_frame[of P now g "http P req" st]
  by (simp add: respond_def Let_def split: option.splits)

lemma respond_sequenced:
  assumes "sequenced st"
  shows "sequenced (respond P now q st)"
proof (cases "\<exists>g req. status st q = Some (InFlight g req)")
  case False
  then have "respond P now q st = st" by (intro respond_idle) auto
  then show ?thesis using assms by simp
next
  case True
  then obtain g req where i: "status st q = Some (InFlight g req)" by blast
  obtain r st1 where u: "userSessionContinuation_resume P now g (http P req) st = (r, st1)"
    by (cases "userSessionContinuation_resume P now g (http P req) st")
  let ?st2 = "st1\<lparr>status := (status st)(q \<mapsto> Settled r)\<rparr>"
  have p1: "userSessionSequencePromise st1 = userSessionSequencePromise st"
    using resume_frame[of P now g "http P req" st] u by simp
  show ?thesis
  proof (cases "userSessionSequencePromise st")
    case None
    then show ?thesis
      unfolding respond_in_flight[OF i u] using p1 by (simp add: sequenced_def)
  next
    case (Some s)
    have "serialized (map (status st) (chain s))" using assms Some by (simp add: sequenced_def)
    then have "startable (map ((status st)(q \<mapsto> Settled r)) (chain s))"
      using chain_distinct i by (rule serialized_settle)
    then have "startable (map (status ?st2) (chain s))" by simp
    then have "serialized (map (status (run_callbacks P now (chain s) ?st2)) (chain s))"
      using chain_distinct run_callbacks_serialized by blast
    then show ?thesis
      unfolding respond_in_flight[OF i u] using Some p1 by (simp add: sequenced_def)
  qed
qed

lemma respond_settles:
  assumes "status st q = Some (InFlight g req)"
  shows "status (respond P now q st) q
           = Some (Settled (fst (userSessionContinuation_resume P now g (http P req) st)))"
proof -
  obtain r st1 where u: "userSessionContinuation_resume P now g (http P req) st = (r, st1)"
    by (cases "userSessionContinuation_resume P now g (http P req) st")
  let ?st2 = "st1\<lparr>status := (status st)(q \<mapsto> Settled r)\<rparr>"
  have "status (run_callbacks P now qs ?st2) q = Some (Settled r)" for qs
    using run_callbacks_other[of q qs ?st2 P now] by simp
  then show ?thesis
    unfolding respond_in_flight[OF assms u] using u by (simp split: option.splits)
qed

lemma respond_keeps_settled:
  assumes "status st p = Some (Settled r)"
  shows "status (respond P now q st) p = Some (Settled r)"
proof (cases "\<exists>g req. status st q = Some (InFlight g req)")
  case False
  then have "respond P now q st = st" by (intro respond_idle) auto
  then show ?thesis using assms by simp
next
  case True
  then obtain g req where i: "status st q = Some (InFlight g req)" by blast
  obtain r' st1 where u: "userSessionContinuation_resume P now g (http P req) st = (r', st1)"
    by (cases "userSessionContinuation_resume P now g (http P req) st")
  let ?st2 = "st1\<lparr>status := (status st)(q \<mapsto> Settled r')\<rparr>"
  have ne: "p \<noteq> q" using assms i by auto
  have "status (run_callbacks P now qs ?st2) p = Some (Settled r)" for qs
    using run_callbacks_other[of p qs ?st2 P now] assms ne by simp
  then show ?thesis
    unfolding respond_in_flight[OF i u] using assms ne by (simp split: option.splits)
qed

text \<open>Awaiting a promise of the chain returns, with the promise settled.\<close>

lemma await_settled: "status st p = Some (Settled r) \<Longrightarrow> await P now p st = Some (r, st)"
  by (cases p) (simp_all add: outcome_def respond_def)

lemma await_total:
  "sequenced st \<Longrightarrow> userSessionSequencePromise st = Some s \<Longrightarrow> p \<in> set (chain s)
     \<Longrightarrow> \<exists>r st'. await P now p st = Some (r, st') \<and> sequenced st'
           \<and> userSessionSequencePromise st' = Some s \<and> status st' p = Some (Settled r)"
proof (induction p arbitrary: st)
  case (Continuation b)
  let ?q = "Continuation b"
  obtain ys where c: "chain s = ?q # ys" using chain_head[OF Continuation.prems(3)] by blast
  have "serialized (status st ?q # map (status st) ys)"
    using Continuation.prems(1,2) c by (simp add: sequenced_def)
  from serialized_head[OF this] show ?case
  proof
    assume "\<exists>r. status st ?q = Some (Settled r)"
    then obtain r where r: "status st ?q = Some (Settled r)" by blast
    show ?thesis using await_settled[OF r] r Continuation.prems by blast
  next
    assume "\<exists>g req. status st ?q = Some (InFlight g req)"
    then obtain g req where i: "status st ?q = Some (InFlight g req)" by blast
    have "await P now ?q (st) = Some (fst (userSessionContinuation_resume P now g (http P req) st),
                                     respond P now ?q st)"
      using respond_settles[OF i, of P now] by (simp add: outcome_def Let_def)
    then show ?thesis
      using respond_settles[OF i, of P now] respond_sequenced[OF Continuation.prems(1)]
        Continuation.prems(2) by simp
  qed
next
  case (Then p b)
  let ?q = "Then p b"
  show ?case
  proof (cases "\<exists>r. status st ?q = Some (Settled r)")
    case True
    then obtain r where r: "status st ?q = Some (Settled r)" by blast
    show ?thesis using await_settled[OF r] r Then.prems by blast
  next
    case False
    then have o: "outcome st ?q = None"
      by (auto simp: outcome_def split: option.splits pass_status.splits)
    obtain xs ys where c: "chain s = xs @ p # ?q # ys" using chain_pred[OF Then.prems(3)] by blast
    then have "p \<in> set (chain s)" by simp
    from Then.IH[OF Then.prems(1,2) this]
    obtain r0 st0 where a: "await P now p st = Some (r0, st0)" and s0: "sequenced st0"
      and p0: "userSessionSequencePromise st0 = Some s" and t0: "status st0 p = Some (Settled r0)"
      by blast
    have "serialized (map (status st0) (xs @ p # ?q # ys))"
      using s0 p0 c by (simp add: sequenced_def)
    from serialized_next[OF this t0]
    have "\<exists>r. status (respond P now ?q st0) ?q = Some (Settled r)"
    proof
      assume "\<exists>r'. status st0 ?q = Some (Settled r')"
      then show ?thesis using respond_keeps_settled by blast
    next
      assume "\<exists>g' q'. status st0 ?q = Some (InFlight g' q')"
      then show ?thesis using respond_settles by blast
    qed
    then obtain r where r: "status (respond P now ?q st0) ?q = Some (Settled r)" by blast
    have "await P now ?q st = Some (r, respond P now ?q st0)"
      using o a r by (simp add: Let_def outcome_def)
    then show ?thesis using r respond_sequenced[OF s0] p0 by simp
  qed
qed

text \<open>The guard keeps the chain serialized and returns the promise it stores.\<close>

lemma userSessionExists_sequenced:
  assumes "sequenced st" and "userSessionExists P b now1 now2 st = (p, st')"
  shows "sequenced st' \<and> userSessionSequencePromise st' = Some p"
proof (cases "userSessionSequencePromise st")
  case None
  let ?q = "Continuation b"
  let ?st1 = "st\<lparr>lastSessionCheck := now1, userSessionSequencePromise := Some ?q\<rparr>"
  obtain z where z: "z \<noteq> Waiting" "status (start P now2 ?q ?st1) = (status ?st1)(?q \<mapsto> z)"
    using start_status by blast
  have e: "p = ?q" "st' = start P now2 ?q ?st1"
    using assms(2) None by (auto simp: userSessionExists_def Let_def)
  have "serialized [Some z]" using z(1) by (cases z) simp_all
  then show ?thesis unfolding e using z(2) by (simp add: sequenced_def)
next
  case (Some s)
  show ?thesis
  proof (cases "now2 - now1 < 5")
    case True
    then have "p = s" "st' = st\<lparr>lastSessionCheck := now1\<rparr>"
      using assms(2) Some by (auto simp: userSessionExists_def Let_def)
    then show ?thesis using assms(1) Some by simp
  next
    case False
    let ?q = "Then s b"
    let ?st1 = "st\<lparr>lastSessionCheck := now1, userSessionSequencePromise := Some ?q,
                    status := (status st)(?q \<mapsto> Waiting)\<rparr>"
    have e: "p = ?q" "st' = run_callbacks P now2 (chain ?q) ?st1"
      using assms(2) Some False by (auto simp: userSessionExists_def Let_def)
    have "serialized (map (status st) (chain s))" using assms(1) Some by (simp add: sequenced_def)
    then have "startable (map (status st) (chain s) @ [Some Waiting])"
      by (rule serialized_snoc_waiting)
    moreover have "map (status ?st1) (chain ?q) = map (status st) (chain s) @ [Some Waiting]"
      by (simp add: map_status_other[OF chain_fresh])
    ultimately have "startable (map (status ?st1) (chain ?q))" by (simp only:)
    then have "serialized (map (status (run_callbacks P now2 (chain ?q) ?st1)) (chain ?q))"
      using chain_distinct run_callbacks_serialized by blast
    then show ?thesis unfolding e by (simp add: sequenced_def)
  qed
qed

text \<open>Around the promise in flight: settled promises before it, waiting ones behind.\<close>

lemma serialized_in_flight:
  "serialized (map f (xs @ p # ys)) \<Longrightarrow> f p = Some (InFlight g req)
     \<Longrightarrow> filter (\<lambda>q. case f q of Some (InFlight g r) \<Rightarrow> True | _ \<Rightarrow> False) (xs @ p # ys) = [p]
         \<and> (\<forall>x \<in> set xs. \<exists>r. f x = Some (Settled r))
         \<and> (\<forall>y \<in> set ys. f y = Some Waiting)"
proof (induction xs)
  case Nil
  then have w: "list_all (\<lambda>x. x = Some Waiting) (map f ys)" by simp
  then have "filter (\<lambda>q. case f q of Some (InFlight g r) \<Rightarrow> True | _ \<Rightarrow> False) ys = []"
    by (induction ys) auto
  then show ?case using Nil w by (auto simp: list_all_iff)
next
  case (Cons x xs)
  have "\<exists>r'. f x = Some (Settled r')"
    using serialized_head[of "f x" "map f (xs @ p # ys)"] Cons.prems
    by (auto simp: list_all_iff)
  then show ?case using Cons by auto
qed




lemma before_last_settled:
  assumes "sequenced st" and "userSessionSequencePromise st = Some s"
    and "status st s = Some (InFlight g req)"
  shows "\<forall>x \<in> set (chain s). x \<noteq> s \<longrightarrow> (\<exists>r. status st x = Some (Settled r))"
proof -
  obtain xs where c: "chain s = xs @ [s]" using chain_last by blast
  have "serialized (map (status st) (xs @ s # []))" using assms(1,2) c by (simp add: sequenced_def)
  from serialized_in_flight[OF this assms(3)] show ?thesis unfolding c by auto
qed


lemma loopback_implicit_requests:
  "requests (snd (loopback_implicit P now a u st)) = requests st"
  by (auto simp: loopback_implicit_def Let_def userSessionResolver_def TokenStore_set_def
           split: sum.splits)






lemma respond_last_requests:
  assumes "sequenced st" and "userSessionSequencePromise st = Some s"
  shows "requests (respond P now s st) = requests st"
proof (cases "\<exists>g req. status st s = Some (InFlight g req)")
  case False
  then have "respond P now s st = st" by (intro respond_idle) auto
  then show ?thesis by simp
next
  case True
  then obtain g req where i: "status st s = Some (InFlight g req)" by blast
  obtain r st1 where u: "userSessionContinuation_resume P now g (http P req) st = (r, st1)"
    by (cases "userSessionContinuation_resume P now g (http P req) st")
  let ?st2 = "st1\<lparr>status := (status st)(s \<mapsto> Settled r)\<rparr>"
  have "\<forall>x \<in> set (chain s). \<exists>r. status ?st2 x = Some (Settled r)"
    using before_last_settled[OF assms i] by auto
  then have "run_callbacks P now (chain s) ?st2 = ?st2" by (rule run_callbacks_settled)
  then show ?thesis
    unfolding respond_in_flight[OF i u] assms(2) option.case
    using resume_frame[of P now g "http P req" st] u by simp
qed

lemma await_in_flight:
  assumes "sequenced st" and "userSessionSequencePromise st = Some s"
    and "p \<in> set (chain s)" and "status st p = Some (InFlight g req)"
  shows "await P now p st
           = Some (fst (userSessionContinuation_resume P now g (http P req) st),
                   respond P now p st)"
proof (cases p)
  case (Continuation b)
  then show ?thesis
    using respond_settles[OF assms(4), of P now] by (simp add: outcome_def Let_def)
next
  case (Then p' b)
  obtain xs ys where c: "chain s = xs @ p' # p # ys"
    using chain_pred[of p' b s] assms(3) Then by blast
  have "serialized (map (status st) ((xs @ [p']) @ p # ys))"
    using assms(1,2) c by (simp add: sequenced_def)
  from serialized_in_flight[OF this assms(4)]
  obtain r0 where "status st p' = Some (Settled r0)" by auto
  then have a: "await P now p' st = Some (r0, st)" by (rule await_settled)
  show ?thesis
    using respond_settles[OF assms(4), of P now] assms(4) a
    unfolding Then by (simp add: outcome_def Let_def)
qed



lemma respond_last:
  assumes "sequenced st" and "userSessionSequencePromise st = Some s"
    and "status st s = Some (InFlight g req)"
    and "userSessionContinuation_resume P now g (http P req) st = (r, st1)"
  shows "respond P now s st = st1\<lparr>status := (status st)(s \<mapsto> Settled r)\<rparr>"
proof -
  let ?st2 = "st1\<lparr>status := (status st)(s \<mapsto> Settled r)\<rparr>"
  have "\<forall>x \<in> set (chain s). \<exists>r. status ?st2 x = Some (Settled r)"
    using before_last_settled[OF assms(1-3)] by auto
  then have "run_callbacks P now (chain s) ?st2 = ?st2" by (rule run_callbacks_settled)
  then show ?thesis unfolding respond_in_flight[OF assms(3,4)] assms(2) option.case .
qed


text \<open>A pass on the page \<open>https://app.example.com/\<close> with no pending record and no
  usable token: it asks the provider, whose answer \<open>{}\<close> leaves the user logged out.\<close>

lemma idle_begin:
  assumes "window st = Some \<lparr>location = Some (app_location [])\<rparr>"
    and "localStorageAvailable st" and "localStorage st AuthenticationRequestNonceKey = None"
    and "\<not> truthy (TokenStore_get now st)"
  shows "userSessionContinuation_begin demo_platform JUndefined now st
           = (Awaits SessionRefresh (PatchSession True),
              st\<lparr>localStorage := (localStorage st)(AuthenticationRequestNonceKey := None),
                 enableCredentials := True,
                 requests := requests st @ [PatchSession True]\<rparr>)"
proof -
  let ?st1 = "st\<lparr>localStorage := (localStorage st)(AuthenticationRequestNonceKey := None),
                  enableCredentials := True\<rparr>"
  have l: "load_authRequest demo_platform st = (JObj [], ?st1)"
    using assms(2,3) by (simp add: load_authRequest_def pending_item_def demo_platform_def)
  have il: "\<not> isLocalHost ?st1"
    using assms(1) by (simp add: isLocalHost_def app_location_fields)
  have t: "TokenStore_get now ?st1 = TokenStore_get now st" by (simp add: TokenStore_get_def)
  have s: "session_check demo_platform JUndefined now ?st1
             = (Awaits SessionRefresh (PatchSession True),
                ?st1\<lparr>requests := requests st @ [PatchSession True]\<rparr>)"
    using il assms(4) by (simp add: session_check_def getUserIdentity_def t bind_def Let_def)
  show ?thesis
    using il assms(1)
    by (simp add: userSessionContinuation_begin_def l s url_get_def app_location_fields)
qed

lemma idle_start:
  assumes "window st = Some \<lparr>location = Some (app_location [])\<rparr>"
    and "localStorageAvailable st" and "localStorage st AuthenticationRequestNonceKey = None"
    and "\<not> truthy (TokenStore_get now st)" and "trigger q = JUndefined"
  shows "start demo_platform now q st
           = st\<lparr>localStorage := (localStorage st)(AuthenticationRequestNonceKey := None),
                enableCredentials := True,
                requests := requests st @ [PatchSession True],
                status := (status st)(q \<mapsto> InFlight SessionRefresh (PatchSession True))\<rparr>"
  by (simp add: start_def assms(5) idle_begin[OF assms(1-4)])

lemma idle_resume:
  assumes "cookies st ''user'' = None"
  shows "userSessionContinuation_resume demo_platform now SessionRefresh (Inr (JObj [])) st
           = (Inr False,
              st\<lparr>tokenStore := Some (JUndefined, new_Date (Some (now + 86400000)))\<rparr>)"
  using assms
  by (simp add: userSessionContinuation_resume_def session_check_resume_def silent_refresh_def
        cookie_value_def TokenStore_set_def getUserIdentity_def TokenStore_get_def bind_def
        Let_def split: date.splits)

lemma sequenced_demo_page: "sequenced (demo_page params)"
  by (simp add: sequenced_def demo_page_fields)

lemma demo_first_call:
  "userSessionExists demo_platform JUndefined 1000 1000 (demo_page [])
     = (Continuation JUndefined, demo_checking)"
  by (simp add: demo_checking_def userSessionExists_def Let_def demo_page_fields)

lemma demo_checking_state:
  "demo_checking =
     (demo_page [])\<lparr>lastSessionCheck := 1000,
                     userSessionSequencePromise := Some (Continuation JUndefined),
                     localStorage := Map.empty, enableCredentials := True,
                     requests := [PatchSession True],
                     status := [Continuation JUndefined
                                  \<mapsto> InFlight SessionRefresh (PatchSession True)]\<rparr>"
proof -
  let ?st1 = "(demo_page [])\<lparr>lastSessionCheck := 1000,
                             userSessionSequencePromise := Some (Continuation JUndefined)\<rparr>"
  have "userSessionContinuation_begin demo_platform JUndefined 1000 ?st1
           = (Awaits SessionRefresh (PatchSession True),
              ?st1\<lparr>localStorage := (localStorage ?st1)(AuthenticationRequestNonceKey := None),
                 enableCredentials := True,
                 requests := requests ?st1 @ [PatchSession True]\<rparr>)"
    by (rule idle_begin) (simp_all add: demo_page_fields TokenStore_get_def)
  then show ?thesis
    by (simp add: demo_checking_def userSessionExists_def Let_def demo_page_fields start_def)
qed

lemma demo_checking_fields:
  "window demo_checking = Some \<lparr>location = Some (app_location [])\<rparr>"
  "localStorageAvailable demo_checking"
  "localStorage demo_checking = Map.empty"
  "tokenStore demo_checking = None"
  "cookies demo_checking = Map.empty"
  "requests demo_checking = [PatchSession True]"
  "userSessionSequencePromise demo_checking = Some (Continuation JUndefined)"
  "status demo_checking (Continuation JUndefined)
     = Some (InFlight SessionRefresh (PatchSession True))"
  "status demo_checking (Then (Continuation JUndefined) JUndefined) = None"
  by (simp_all add: demo_checking_state demo_page_fields)

lemma sequenced_demo_checking: "sequenced demo_checking"
  using userSessionExists_sequenced[OF sequenced_demo_page demo_first_call] by simp

lemma demo_http: "http demo_platform (PatchSession c) = Inr (JObj [])"
  by (simp add: demo_platform_def)



section \<open>\<open>ensureToken\<close>\<close>

lemma ToInt32_in_range:
  assumes "- 2147483648 \<le> n" and "n < 2147483648"
  shows "ToInt32 n = n"
proof (cases "0 \<le> n")
  case True
  then have "n mod 4294967296 = n" using assms by simp
  then show ?thesis using assms by (simp add: ToInt32_def Let_def)
next
  case False
  have "(n + 4294967296) mod 4294967296 = n + 4294967296"
    using assms False by (intro mod_pos_pos_trivial) auto
  then have "n mod 4294967296 = n + 4294967296" by simp
  then show ?thesis using False assms by (simp add: ToInt32_def Let_def)
qed

lemma timer_delay_default: "timer_delay P (timeout_option JUndefined) = 5000"
  by (simp add: timer_delay_def timeout_option_def js_or_def ToInt32_in_range)

lemma timer_delay_absent:
  "map_of kvs ''timeoutInMillis'' = None \<Longrightarrow> timer_delay P (timeout_option (JObj kvs)) = 5000"
  by (simp add: timer_delay_def timeout_option_def js_or_def ToInt32_in_range)

lemma timer_delay_number:
  "map_of kvs ''timeoutInMillis'' = Some (JNum n) \<Longrightarrow> 0 \<le> n \<Longrightarrow> n < 2147483648
     \<Longrightarrow> timer_delay P (timeout_option (JObj kvs)) = n"
  by (auto simp: timer_delay_def timeout_option_def js_or_def ToInt32_in_range)

text \<open>A delay of \<open>2^31\<close> ms wraps around to a negative number: the timer fires at once.\<close>

lemma timer_delay_wraps: "timer_delay P (JNum 2147483648) = 0"
  by (simp add: timer_delay_def ToInt32_def)

text \<open>
  Claim C6, as amended. \<open>ensureToken\<close> first awaits a session check and, when the check
  is rejected, is rejected with the same error. Otherwise it races the session signal
  against a timer of the configured delay (\<open>timeoutInMillis\<close>, a number of milliseconds
  from 0 to \<open>2^31 - 1\<close>; 5000 ms when it is not given): when the signal is not resolved
  yet and is not resolved before the timer fires, it rejects with \<open>TokenTimeout\<close>; when
  the signal is resolved already or is resolved before the timer fires, and the cookie
  \<open>authorization\<close> is set and is not the placeholder \<open>undefined\<close>, it returns the cookie's
  value.
\<close>

theorem ensureToken_outcome:
  assumes "sequenced st" and "userSessionExists P JUndefined now1 now2 st = (p, st1)"
  shows "\<exists>r st2. await P now p st1 = Some (r, st2)
     \<and> (\<forall>e. r = Inl e \<longrightarrow>
            ensureToken P options now1 now2 now resolvedAfter st = Some (Inl e, st2))
     \<and> (\<forall>b. r = Inr b \<and> \<not> userSessionResolved st2
             \<and> (\<forall>t. resolvedAfter = Some t \<longrightarrow> timer_delay P (timeout_option options) \<le> t)
           \<longrightarrow> ensureToken P options now1 now2 now resolvedAfter st
                 = Some (Inl (CodedError ''TokenTimeout''), st2))
     \<and> (\<forall>b v. r = Inr b
             \<and> (userSessionResolved st2
                  \<or> (\<exists>t. resolvedAfter = Some t \<and> t < timer_delay P (timeout_option options)))
             \<and> cookies st2 ''authorization'' = Some v \<and> v \<noteq> ''undefined''
           \<longrightarrow> ensureToken P options now1 now2 now resolvedAfter st = Some (Inr (JStr v), st2))
     \<and> timer_delay P (timeout_option JUndefined) = 5000
     \<and> (\<forall>kvs. options = JObj kvs \<and> map_of kvs ''timeoutInMillis'' = None
           \<longrightarrow> timer_delay P (timeout_option options) = 5000)
     \<and> (\<forall>kvs n. options = JObj kvs \<and> map_of kvs ''timeoutInMillis'' = Some (JNum n)
             \<and> 0 \<le> n \<and> n < 2147483648
           \<longrightarrow> timer_delay P (timeout_option options) = n)"
proof -
  have s1: "sequenced st1" and u1: "userSessionSequencePromise st1 = Some p"
    using userSessionExists_sequenced[OF assms] by simp_all
  from await_total[OF s1 u1, of p P now] chain_last[of p]
  obtain r st2 where a: "await P now p st1 = Some (r, st2)" by auto
  have 1: "\<forall>e. r = Inl e \<longrightarrow>
            ensureToken P options now1 now2 now resolvedAfter st = Some (Inl e, st2)"
    using assms(2) a by (simp add: ensureToken_def)
  have 2: "\<forall>b. r = Inr b \<and> \<not> userSessionResolved st2
             \<and> (\<forall>t. resolvedAfter = Some t \<longrightarrow> timer_delay P (timeout_option options) \<le> t)
           \<longrightarrow> ensureToken P options now1 now2 now resolvedAfter st
                 = Some (Inl (CodedError ''TokenTimeout''), st2)"
    using assms(2) a
    by (auto simp: ensureToken_def session_wins_def split: option.splits)
  have 3: "\<forall>b v. r = Inr b
             \<and> (userSessionResolved st2
                  \<or> (\<exists>t. resolvedAfter = Some t \<and> t < timer_delay P (timeout_option options)))
             \<and> cookies st2 ''authorization'' = Some v \<and> v \<noteq> ''undefined''
           \<longrightarrow> ensureToken P options now1 now2 now resolvedAfter st = Some (Inr (JStr v), st2)"
    using assms(2) a
    by (auto simp: ensureToken_def session_wins_def cookie_value_def Let_def)
  have 4: "timer_delay P (timeout_option JUndefined) = 5000" by (rule timer_delay_default)
  have 5: "\<forall>kvs. options = JObj kvs \<and> map_of kvs ''timeoutInMillis'' = None
           \<longrightarrow> timer_delay P (timeout_option options) = 5000"
    using timer_delay_absent by auto
  have 6: "\<forall>kvs n. options = JObj kvs \<and> map_of kvs ''timeoutInMillis'' = Some (JNum n)
             \<and> 0 \<le> n \<and> n < 2147483648
           \<longrightarrow> timer_delay P (timeout_option options) = n"
    using timer_delay_number by auto
  show ?thesis
    apply (rule exI[of _ r], rule exI[of _ st2])
    apply (intro conjI)
    apply (rule a, rule 1, rule 2, rule 3, rule 4, rule 5, rule 6)
    done
qed

text \<open>The first check of a page, and awaiting it.\<close>

lemma first_call:
  assumes "userSessionSequencePromise st = None"
  shows "userSessionExists P b now1 now2 st
           = (Continuation b,
              start P now2 (Continuation b)
                (st\<lparr>lastSessionCheck := now1,
                    userSessionSequencePromise := Some (Continuation b)\<rparr>))"
  using assms by (simp add: userSessionExists_def Let_def)

lemma sequenced_first:
  "userSessionSequencePromise st = None \<Longrightarrow> sequenced st"
  by (simp add: sequenced_def)

lemma idle_first_check:
  assumes "window st = Some \<lparr>location = Some (app_location [])\<rparr>"
    and "localStorageAvailable st" and "localStorage st AuthenticationRequestNonceKey = None"
    and "tokenStore st = None" and "cookies st ''user'' = None"
    and "userSessionSequencePromise st = None"
    and "userSessionExists demo_platform JUndefined now1 now2 st = (p, st1)"
  shows "\<exists>st2. await demo_platform now p st1 = Some (Inr False, st2)
           \<and> userSessionResolved st2 = userSessionResolved st \<and> cookies st2 = cookies st"
proof -
  let ?p = "Continuation JUndefined"
  let ?st0 = "st\<lparr>lastSessionCheck := now1, userSessionSequencePromise := Some ?p\<rparr>"
  let ?A = "?st0\<lparr>localStorage := (localStorage ?st0)(AuthenticationRequestNonceKey := None),
                enableCredentials := True,
                requests := requests ?st0 @ [PatchSession True],
                status := (status ?st0)(?p \<mapsto> InFlight SessionRefresh (PatchSession True))\<rparr>"
  have "start demo_platform now2 ?p ?st0 = ?A"
    by (rule idle_start) (simp_all add: assms TokenStore_get_def)
  then have e: "p = ?p" "st1 = ?A"
    using assms(7) unfolding first_call[OF assms(6)] by auto
  have s: "sequenced ?A" and u: "userSessionSequencePromise ?A = Some ?p"
    using userSessionExists_sequenced[OF sequenced_first[OF assms(6)] assms(7)] e by simp_all
  have i: "status ?A ?p = Some (InFlight SessionRefresh (PatchSession True))" by simp
  have r: "userSessionContinuation_resume demo_platform now SessionRefresh
             (http demo_platform (PatchSession True)) ?A
           = (Inr False,
              ?A\<lparr>tokenStore := Some (JUndefined, new_Date (Some (now + 86400000)))\<rparr>)"
    unfolding demo_http by (rule idle_resume) (simp add: assms)
  have "await demo_platform now ?p ?A = Some (Inr False, respond demo_platform now ?p ?A)"
    using await_in_flight[OF s u _ i, of demo_platform now] r by simp
  then show ?thesis
    unfolding e respond_last[OF s u i r] by simp
qed

lemma logged_in_first_check:
  assumes "window st = Some \<lparr>location = Some (app_location [])\<rparr>"
    and "localStorageAvailable st" and "localStorage st AuthenticationRequestNonceKey = None"
    and "tokenStore st = Some (JStr demo_token, ValidDate t)" and "now2 < t"
    and "userSessionSequencePromise st = None"
    and "userSessionExists demo_platform JUndefined now1 now2 st = (p, st1)"
  shows "await demo_platform now p st1 = Some (Inr True, st1)
           \<and> userSessionResolved st1 \<and> cookies st1 = cookies st"
proof -
  let ?p = "Continuation JUndefined"
  let ?st0 = "st\<lparr>lastSessionCheck := now1, userSessionSequencePromise := Some ?p\<rparr>"
  let ?st1 = "?st0\<lparr>localStorage := (localStorage st)(AuthenticationRequestNonceKey := None),
                   enableCredentials := True\<rparr>"
  have l: "load_authRequest demo_platform ?st0 = (JObj [], ?st1)"
    using assms(2,3) by (simp add: load_authRequest_def pending_item_def demo_platform_def)
  have g: "getUserIdentity demo_platform now2 ?st1
             = Inr (JObj [(''sub'', JStr ''u1''), (''exp'', JNum 2000), (''userId'', JStr ''u1'')])"
  proof -
    have t: "TokenStore_get now2 ?st1 = JStr demo_token"
      using assms(4,5) by (simp add: TokenStore_get_def)
    show ?thesis
      by (simp add: getUserIdentity_def t Let_def demo_decode bind_def
            truthy_demo_token[simplified])
  qed
  have s: "session_check demo_platform JUndefined now2 ?st1
             = (Returned (Inr True), ?st1\<lparr>userSessionResolved := True\<rparr>)"
    by (simp add: session_check_def g userSessionResolver_def)
  have b: "userSessionContinuation_begin demo_platform JUndefined now2 ?st0
             = (Returned (Inr True), ?st1\<lparr>userSessionResolved := True\<rparr>)"
    using assms(1)
    by (simp add: userSessionContinuation_begin_def l s url_get_def app_location_fields
          isLocalHost_def)
  have "start demo_platform now2 ?p ?st0
          = ?st1\<lparr>userSessionResolved := True,
                  status := (status st)(?p \<mapsto> Settled (Inr True))\<rparr>"
    by (simp add: start_def b)
  then have e: "p = ?p" "st1 = ?st1\<lparr>userSessionResolved := True,
                                     status := (status st)(?p \<mapsto> Settled (Inr True))\<rparr>"
    using assms(7) unfolding first_call[OF assms(6)] by auto
  have "status st1 p = Some (Settled (Inr True))" unfolding e by simp
  then have "await demo_platform now p st1 = Some (Inr True, st1)" by (rule await_settled)
  then show ?thesis by (simp add: e(2))
qed

lemma replay_first_check:
  assumes "window st = Some \<lparr>location = Some (app_location [(''code'', ''abc123''), (''nonce'', ''N2'')])\<rparr>"
    and "localStorageAvailable st"
    and "JSON_parse demo_platform (pending_item st) = Some (JObj [(''nonce'', JStr ''N1'')])"
    and "userSessionSequencePromise st = None"
    and "userSessionExists demo_platform JUndefined now1 now2 st = (p, st1)"
  shows "await demo_platform now p st1 = Some (Inl (CodedError ''InvalidNonce''), st1)
           \<and> userSessionResolved st1 = userSessionResolved st \<and> requests st1 = requests st"
proof -
  let ?p = "Continuation JUndefined"
  let ?st0 = "st\<lparr>lastSessionCheck := now1, userSessionSequencePromise := Some ?p\<rparr>"
  let ?st1 = "?st0\<lparr>localStorage := (localStorage st)(AuthenticationRequestNonceKey := None),
                   enableCredentials := True\<rparr>"
  have "pending_item ?st0 = pending_item st" by (simp add: pending_item_def)
  then have l: "load_authRequest demo_platform ?st0 = (JObj [(''nonce'', JStr ''N1'')], ?st1)"
    using assms(2,3) by (simp add: load_authRequest_def)
  have b: "userSessionContinuation_begin demo_platform JUndefined now2 ?st0
             = (Returned (Inl (CodedError ''InvalidNonce'')), ?st1)"
    using assms(1)
    by (simp add: userSessionContinuation_begin_def l code_exchange_def url_get_def
          app_location_fields)
  have "start demo_platform now2 ?p ?st0
          = ?st1\<lparr>status := (status st)(?p \<mapsto> Settled (Inl (CodedError ''InvalidNonce'')))\<rparr>"
    by (simp add: start_def b)
  then have e: "p = ?p"
    "st1 = ?st1\<lparr>status := (status st)(?p \<mapsto> Settled (Inl (CodedError ''InvalidNonce'')))\<rparr>"
    using assms(5) unfolding first_call[OF assms(4)] by auto
  have "status st1 p = Some (Settled (Inl (CodedError ''InvalidNonce'')))" unfolding e by simp
  then have "await demo_platform now p st1 = Some (Inl (CodedError ''InvalidNonce''), st1)"
    by (rule await_settled)
  then show ?thesis by (simp add: e(2))
qed

lemma demo_replay_fields:
  "window demo_replay
     = Some \<lparr>location = Some (app_location [(''code'', ''abc123''), (''nonce'', ''N2'')])\<rparr>"
  "localStorageAvailable demo_replay"
  "JSON_parse demo_platform (pending_item demo_replay) = Some (JObj [(''nonce'', JStr ''N1'')])"
  "userSessionSequencePromise demo_replay = None"
  "userSessionResolved demo_replay = False"
  "requests demo_replay = []"
  by (simp_all add: demo_replay_def demo_pending_def demo_page_fields pending_item_def
        demo_platform_def)

lemma demo_logged_in_fields:
  "window demo_logged_in = Some \<lparr>location = Some (app_location [])\<rparr>"
  "localStorageAvailable demo_logged_in"
  "localStorage demo_logged_in = Map.empty"
  "tokenStore demo_logged_in = Some (JStr demo_token, ValidDate 2000000)"
  "userSessionSequencePromise demo_logged_in = None"
  "requests demo_logged_in = []"
  by (simp_all add: demo_logged_in_def TokenStore_set_def demo_page_fields)

text \<open>
  On the page with the cookie \<open>authorization=tok\<close> and no session, with a timeout of
  10 ms: \<open>TokenTimeout\<close> when the signal is never resolved or is resolved after 10 ms,
  the token when it is resolved after 3 ms. With a stored identity the check resolves
  the signal, and the call returns the token. On the replayed callback the check is
  rejected, and so is the call.
\<close>

theorem ensureToken_outcome_witness:
  "map_option fst (ensureToken demo_platform (JObj [(''timeoutInMillis'', JNum 10)])
                     1000 1000 1010 None
                     ((demo_page [])\<lparr>cookies := [''authorization'' \<mapsto> ''tok'']\<rparr>))
     = Some (Inl (CodedError ''TokenTimeout''))
   \<and> map_option fst (ensureToken demo_platform (JObj [(''timeoutInMillis'', JNum 10)])
                       1000 1000 1010 (Some 10)
                       ((demo_page [])\<lparr>cookies := [''authorization'' \<mapsto> ''tok'']\<rparr>))
       = Some (Inl (CodedError ''TokenTimeout''))
   \<and> map_option fst (ensureToken demo_platform (JObj [(''timeoutInMillis'', JNum 10)])
                       1000 1000 1010 (Some 3)
                       ((demo_page [])\<lparr>cookies := [''authorization'' \<mapsto> ''tok'']\<rparr>))
       = Some (Inr (JStr ''tok''))
   \<and> map_option fst (ensureToken demo_platform JUndefined 1000 1000 1010 None
                       (demo_logged_in\<lparr>cookies := [''authorization'' \<mapsto> ''tok'']\<rparr>))
       = Some (Inr (JStr ''tok''))
   \<and> map_option fst (ensureToken demo_platform JUndefined 1000 1000 1010 (Some 3) demo_replay)
       = Some (Inl (CodedError ''InvalidNonce''))
   \<and> timer_delay demo_platform (timeout_option (JObj [(''timeoutInMillis'', JNum 10)])) = 10
   \<and> timer_delay demo_platform (timeout_option (JObj [])) = 5000"
proof -
  let ?o = "JObj [(''timeoutInMillis'', JNum 10)]"
  let ?a = "(demo_page [])\<lparr>cookies := [''authorization'' \<mapsto> ''tok'']\<rparr>"
  let ?b = "demo_logged_in\<lparr>cookies := [''authorization'' \<mapsto> ''tok'']\<rparr>"
  obtain pa a1 where ca: "userSessionExists demo_platform JUndefined 1000 1000 ?a = (pa, a1)"
    by (cases "userSessionExists demo_platform JUndefined 1000 1000 ?a")
  obtain pb b1 where cb: "userSessionExists demo_platform JUndefined 1000 1000 ?b = (pb, b1)"
    by (cases "userSessionExists demo_platform JUndefined 1000 1000 ?b")
  obtain pc c1 where cc: "userSessionExists demo_platform JUndefined 1000 1000 demo_replay = (pc, c1)"
    by (cases "userSessionExists demo_platform JUndefined 1000 1000 demo_replay")
  have sa: "sequenced ?a" by (simp add: sequenced_first demo_page_fields)
  have sb: "sequenced ?b" by (simp add: sequenced_first demo_logged_in_fields)
  have sc: "sequenced demo_replay" by (simp add: sequenced_first demo_replay_fields)
  from idle_first_check[OF _ _ _ _ _ _ ca, of 1010]
  obtain a2 where wa: "await demo_platform 1010 pa a1 = Some (Inr False, a2)"
    and ra: "\<not> userSessionResolved a2" and ka: "cookies a2 ''authorization'' = Some ''tok''"
    by (auto simp: demo_page_fields)
  from logged_in_first_check[OF _ _ _ _ _ _ cb, of 2000000 1010]
  have wb: "await demo_platform 1010 pb b1 = Some (Inr True, b1)"
    and rb: "userSessionResolved b1" and kb: "cookies b1 ''authorization'' = Some ''tok''"
    by (auto simp: demo_logged_in_fields)
  from replay_first_check[OF demo_replay_fields(1-4) cc, of 1010]
  have wc: "await demo_platform 1010 pc c1 = Some (Inl (CodedError ''InvalidNonce''), c1)"
    by simp
  have d: "timer_delay demo_platform (timeout_option ?o) = 10"
  proof -
    from ensureToken_outcome[OF sa ca, where now = 1010 and options = ?o
           and resolvedAfter = None]
    have "\<forall>kvs n. ?o = JObj kvs \<and> map_of kvs ''timeoutInMillis'' = Some (JNum n)
             \<and> 0 \<le> n \<and> n < 2147483648
           \<longrightarrow> timer_delay demo_platform (timeout_option ?o) = n" by blast
    then show ?thesis by simp
  qed
  have d0: "timer_delay demo_platform (timeout_option (JObj [])) = 5000"
  proof -
    from ensureToken_outcome[OF sa ca, where now = 1010 and options = "JObj []"
           and resolvedAfter = None]
    have "\<forall>kvs. JObj [] = JObj kvs \<and> map_of kvs ''timeoutInMillis'' = None
           \<longrightarrow> timer_delay demo_platform (timeout_option (JObj [])) = 5000" by blast
    then show ?thesis by simp
  qed
  have 1: "ensureToken demo_platform ?o 1000 1000 1010 None ?a
             = Some (Inl (CodedError ''TokenTimeout''), a2)"
    using ensureToken_outcome[OF sa ca, where now = 1010 and options = ?o
            and resolvedAfter = None] wa ra by auto
  have 2: "ensureToken demo_platform ?o 1000 1000 1010 (Some 10) ?a
             = Some (Inl (CodedError ''TokenTimeout''), a2)"
    using ensureToken_outcome[OF sa ca, where now = 1010 and options = ?o
            and resolvedAfter = "Some 10"] wa ra d by auto
  have 3: "ensureToken demo_platform ?o 1000 1000 1010 (Some 3) ?a = Some (Inr (JStr ''tok''), a2)"
    using ensureToken_outcome[OF sa ca, where now = 1010 and options = ?o
            and resolvedAfter = "Some 3"] wa ka d by auto
  have 4: "ensureToken demo_platform JUndefined 1000 1000 1010 None ?b
             = Some (Inr (JStr ''tok''), b1)"
    using ensureToken_outcome[OF sb cb, where now = 1010 and options = JUndefined
            and resolvedAfter = None] wb rb kb by auto
  have 5: "ensureToken demo_platform JUndefined 1000 1000 1010 (Some 3) demo_replay
             = Some (Inl (CodedError ''InvalidNonce''), c1)"
    using ensureToken_outcome[OF sc cc, where now = 1010 and options = JUndefined
            and resolvedAfter = "Some 3"] wc by auto
  show ?thesis unfolding 1 2 3 4 5 d d0 by simp
qed

text \<open>
  Claim C6 as stated fails on the replayed callback: the session signal is never
  resolved, and \<open>ensureToken\<close> rejects with \<open>InvalidNonce\<close>, the error of the session
  check, not with \<open>TokenTimeout\<close>.
\<close>

theorem ensureToken_replay_counterexample:
  "map_option fst
     (ensureToken demo_platform (JObj [(''timeoutInMillis'', JNum 10)]) 1000 1000 1010 None
        demo_replay)
     = Some (Inl (CodedError ''InvalidNonce''))
   \<and> map_option (userSessionResolved \<circ> snd)
       (ensureToken demo_platform (JObj [(''timeoutInMillis'', JNum 10)]) 1000 1000 1010 None
          demo_replay)
       = Some False"
proof -
  obtain p st1 where c: "userSessionExists demo_platform JUndefined 1000 1000 demo_replay = (p, st1)"
    by (cases "userSessionExists demo_platform JUndefined 1000 1000 demo_replay")
  from replay_first_check[OF demo_replay_fields(1-4) c, of 1010]
  show ?thesis by (simp add: ensureToken_def c demo_replay_fields)
qed

section \<open>\<open>authenticate\<close>\<close>

text \<open>The session check sends no \<open>POST /authentication\<close> request.\<close>

lemma authentication_requests_status [simp]:
  "authentication_requests (st\<lparr>status := s\<rparr>) = authentication_requests st"
  "authentication_requests (st\<lparr>lastSessionCheck := n\<rparr>) = authentication_requests st"
  "authentication_requests (st\<lparr>userSessionSequencePromise := q\<rparr>) = authentication_requests st"
  by (simp_all add: authentication_requests_def)

lemma code_exchange_authentication_requests:
  "authentication_requests (snd (code_exchange P a u st)) = authentication_requests st"
  by (auto simp: code_exchange_def Let_def authentication_requests_def split: sum.splits)

lemma session_check_authentication_requests:
  "authentication_requests (snd (session_check P b now st)) = authentication_requests st"
  by (auto simp: session_check_def Let_def userSessionResolver_def authentication_requests_def
           split: sum.splits)

lemma begin_authentication_requests:
  "authentication_requests (snd (userSessionContinuation_begin P b now st))
     = authentication_requests st"
proof -
  obtain a st1 where l: "load_authRequest P st = (a, st1)" by (cases "load_authRequest P st")
  have f: "authentication_requests st1 = authentication_requests st"
    using load_authRequest_frame[OF l] by (simp add: authentication_requests_def)
  show ?thesis
  proof (cases "window st")
    case None
    then show ?thesis by (simp add: userSessionContinuation_begin_def)
  next
    case (Some w)
    show ?thesis
    proof (cases "location w")
      case None
      then show ?thesis using Some by (simp add: userSessionContinuation_begin_def)
    next
      case (Some loc)
      have "authentication_requests (snd (loopback_implicit P now a (search loc) st1))
              = authentication_requests st1"
        using loopback_implicit_requests[of P now a "search loc" st1]
        by (simp add: authentication_requests_def)
      then show ?thesis
        using \<open>window st = Some w\<close> Some l f
          code_exchange_authentication_requests[of P a "search loc" st1]
          session_check_authentication_requests[of P b now st1]
        by (auto simp: userSessionContinuation_begin_def Let_def
              split: sum.splits prod.splits)
    qed
  qed
qed

lemma start_authentication_requests:
  "authentication_requests (start P now q st) = authentication_requests st"
  using begin_authentication_requests[of P "trigger q" now st]
  by (auto simp: start_def split: prod.splits step.splits)

lemma run_callbacks_authentication_requests:
  "authentication_requests (run_callbacks P now qs st) = authentication_requests st"
proof (induction qs arbitrary: st)
  case Nil
  then show ?case by simp
next
  case (Cons q qs)
  show ?case
    using Cons[of st] Cons[of "start P now q st"] start_authentication_requests[of P now q st]
    by (auto simp: Let_def split: option.splits pass_status.splits)
qed

lemma respond_authentication_requests:
  "authentication_requests (respond P now q st) = authentication_requests st"
proof (cases "\<exists>g req. status st q = Some (InFlight g req)")
  case False
  then have "respond P now q st = st" by (intro respond_idle) auto
  then show ?thesis by simp
next
  case True
  then obtain g req where i: "status st q = Some (InFlight g req)" by blast
  obtain r st1 where u: "userSessionContinuation_resume P now g (http P req) st = (r, st1)"
    by (cases "userSessionContinuation_resume P now g (http P req) st")
  have "authentication_requests st1 = authentication_requests st"
    using resume_frame[of P now g "http P req" st] u by (simp add: authentication_requests_def)
  then show ?thesis
    unfolding respond_in_flight[OF i u]
    by (simp add: run_callbacks_authentication_requests split: option.splits)
qed

lemma await_authentication_requests:
  "await P now p st = Some (r, st') \<Longrightarrow> authentication_requests st' = authentication_requests st"
proof (induction p arbitrary: st r st')
  case (Continuation b)
  then show ?case
    using respond_authentication_requests[of P now "Continuation b" st]
    by (auto simp: Let_def)
next
  case (Then p b)
  show ?case
  proof (cases "outcome st (Then p b)")
    case (Some r')
    then show ?thesis using Then.prems by simp
  next
    case None
    then obtain r0 st0 where a: "await P now p st = Some (r0, st0)"
      and e: "st' = respond P now (Then p b) st0"
      using Then.prems by (auto simp: Let_def split: option.splits)
    show ?thesis
      unfolding e using Then.IH[OF a] respond_authentication_requests[of P now "Then p b" st0]
      by simp
  qed
qed

lemma userSessionExists_authentication_requests:
  "authentication_requests (snd (userSessionExists P b n1 n2 st)) = authentication_requests st"
  by (auto simp: userSessionExists_def Let_def run_callbacks_authentication_requests
        start_authentication_requests split: option.splits)

text \<open>
  Claim C7, as amended. A call of \<open>authenticate\<close> with a valid \<open>responseLocation\<close> and
  neither \<open>connectionId\<close> nor \<open>tenantLookupIdentifier\<close>: with \<open>force\<close> or \<open>multiAccount\<close>
  it raises \<open>InvalidConnection\<close> at once, the state untouched; otherwise the session check
  runs first, its rejection is passed on, an existing session returns true, and without
  a session \<open>InvalidConnection\<close> is raised in the state the check left. In every case the
  call returns and no \<open>POST /authentication\<close> request is sent.
\<close>

theorem authenticate_requires_connection:
  assumes "\<not> truthy (responseLocation a) \<or> responseLocation a = JStr ''cookie''
           \<or> responseLocation a = JStr ''query'' \<or> responseLocation a = JStr ''none''"
    and "\<not> truthy (connectionId a)" and "\<not> truthy (tenantLookupIdentifier a)"
  shows "(truthy (force a) \<or> truthy (multiAccount a) \<longrightarrow>
            authenticate P a now1 now2 now st
              = Some (Inl (CodedError ''InvalidConnection''), st))
       \<and> (\<not> truthy (force a) \<and> \<not> truthy (multiAccount a) \<longrightarrow>
            (\<forall>p st1 r st2.
               userSessionExists P JUndefined now1 now2 st = (p, st1)
               \<and> await P now p st1 = Some (r, st2) \<longrightarrow>
               authenticate P a now1 now2 now st =
                 Some (case r of
                         Inl e \<Rightarrow> (Inl e, st2)
                       | Inr True \<Rightarrow> (Inr True, st2)
                       | Inr False \<Rightarrow> (Inl (CodedError ''InvalidConnection''), st2))))
       \<and> (\<forall>r st'. authenticate P a now1 now2 now st = Some (r, st')
            \<longrightarrow> authentication_requests st' = authentication_requests st)
       \<and> (sequenced st \<longrightarrow> (\<exists>r st'. authenticate P a now1 now2 now st = Some (r, st')))"
proof (intro conjI impI allI)
  assume "truthy (force a) \<or> truthy (multiAccount a)"
  then show "authenticate P a now1 now2 now st
               = Some (Inl (CodedError ''InvalidConnection''), st)"
    using assms by (auto simp: authenticate_def)
next
  fix p st1 r st2
  assume "\<not> truthy (force a) \<and> \<not> truthy (multiAccount a)"
    and "userSessionExists P JUndefined now1 now2 st = (p, st1)
         \<and> await P now p st1 = Some (r, st2)"
  then show "authenticate P a now1 now2 now st =
                 Some (case r of
                         Inl e \<Rightarrow> (Inl e, st2)
                       | Inr True \<Rightarrow> (Inr True, st2)
                       | Inr False \<Rightarrow> (Inl (CodedError ''InvalidConnection''), st2))"
    using assms by (auto simp: authenticate_def split: sum.splits bool.splits)
next
  fix r st'
  assume r: "authenticate P a now1 now2 now st = Some (r, st')"
  obtain p st1 where u: "userSessionExists P JUndefined now1 now2 st = (p, st1)"
    by (cases "userSessionExists P JUndefined now1 now2 st")
  have 1: "authentication_requests st1 = authentication_requests st"
    using userSessionExists_authentication_requests[of P JUndefined now1 now2 st] u by simp
  show "authentication_requests st' = authentication_requests st"
  proof (cases "\<not> truthy (force a) \<and> \<not> truthy (multiAccount a)")
    case False
    then show ?thesis using r assms by (auto simp: authenticate_def)
  next
    case True
    then obtain r0 st2 where w: "await P now p st1 = Some (r0, st2)" and e: "st' = st2"
      using r assms u
      by (auto simp: authenticate_def split: option.splits sum.splits bool.splits)
    show ?thesis unfolding e using await_authentication_requests[OF w] 1 by simp
  qed
next
  assume s: "sequenced st"
  obtain p st1 where u: "userSessionExists P JUndefined now1 now2 st = (p, st1)"
    by (cases "userSessionExists P JUndefined now1 now2 st")
  have s1: "sequenced st1" and u1: "userSessionSequencePromise st1 = Some p"
    using userSessionExists_sequenced[OF s u] by simp_all
  from await_total[OF s1 u1, of p P now] chain_last[of p]
  obtain r0 st2 where w: "await P now p st1 = Some (r0, st2)" by auto
  show "\<exists>r st'. authenticate P a now1 now2 now st = Some (r, st')"
    using assms u w by (auto simp: authenticate_def split: sum.splits bool.splits)
qed

text \<open>
  \<open>authenticate({force: true})\<close> and \<open>authenticate({})\<close> on the page without a session
  (the second has sent the silent refresh before it raises); \<open>authenticate({})\<close> with a
  stored identity, and on the replayed callback.
\<close>

theorem authenticate_requires_connection_witness:
  "authenticate demo_platform (demo_args\<lparr>force := JBool True\<rparr>) 1000 1000 1010 (demo_page [])
     = Some (Inl (CodedError ''InvalidConnection''), demo_page [])
   \<and> map_option fst (authenticate demo_platform demo_args 1000 1000 1010 (demo_page []))
     = Some (Inl (CodedError ''InvalidConnection''))
   \<and> map_option (requests \<circ> snd)
       (authenticate demo_platform demo_args 1000 1000 1010 (demo_page []))
     = Some [PatchSession True]
   \<and> map_option fst (authenticate demo_platform demo_args 1000 1000 1010 demo_logged_in)
     = Some (Inr True)
   \<and> map_option fst (authenticate demo_platform demo_args 1000 1000 1010 demo_replay)
     = Some (Inl (CodedError ''InvalidNonce''))"
proof -
  have a: "\<not> truthy (responseLocation demo_args) \<or> responseLocation demo_args = JStr ''cookie''
           \<or> responseLocation demo_args = JStr ''query'' \<or> responseLocation demo_args = JStr ''none''"
      "\<not> truthy (connectionId demo_args)" "\<not> truthy (tenantLookupIdentifier demo_args)"
    and nf: "\<not> truthy (force demo_args) \<and> \<not> truthy (multiAccount demo_args)"
    by (simp_all add: demo_args_def)
  have b: "\<not> truthy (responseLocation (demo_args\<lparr>force := JBool True\<rparr>))
           \<or> responseLocation (demo_args\<lparr>force := JBool True\<rparr>) = JStr ''cookie''
           \<or> responseLocation (demo_args\<lparr>force := JBool True\<rparr>) = JStr ''query''
           \<or> responseLocation (demo_args\<lparr>force := JBool True\<rparr>) = JStr ''none''"
      "\<not> truthy (connectionId (demo_args\<lparr>force := JBool True\<rparr>))"
      "\<not> truthy (tenantLookupIdentifier (demo_args\<lparr>force := JBool True\<rparr>))"
    by (simp_all add: demo_args_def)
  have forced: "authenticate demo_platform (demo_args\<lparr>force := JBool True\<rparr>) 1000 1000 1010
                  (demo_page []) = Some (Inl (CodedError ''InvalidConnection''), demo_page [])"
    using authenticate_requires_connection[OF b, of demo_platform 1000 1000 1010 "demo_page []"]
    by simp
  note checked = authenticate_requires_connection[OF a, of demo_platform 1000 1000 1010,
      THEN conjunct2, THEN conjunct1, rule_format, OF nf]
  have wa: "await demo_platform 1010 (Continuation JUndefined) demo_checking
              = Some (Inr False, respond demo_platform 1010 (Continuation JUndefined) demo_checking)"
    using await_in_flight[OF sequenced_demo_checking demo_checking_fields(7) _
            demo_checking_fields(8), of demo_platform 1010]
      idle_resume[of demo_checking 1010] by (simp add: demo_checking_fields demo_http)
  have ra: "requests (respond demo_platform 1010 (Continuation JUndefined) demo_checking)
              = [PatchSession True]"
    using respond_last_requests[OF sequenced_demo_checking demo_checking_fields(7)]
    by (simp add: demo_checking_fields)
  have none: "authenticate demo_platform demo_args 1000 1000 1010 (demo_page [])
                = Some (Inl (CodedError ''InvalidConnection''),
                        respond demo_platform 1010 (Continuation JUndefined) demo_checking)"
    using checked[OF conjI[OF demo_first_call wa]] by simp
  obtain pb b1 where cb: "userSessionExists demo_platform JUndefined 1000 1000 demo_logged_in = (pb, b1)"
    by (cases "userSessionExists demo_platform JUndefined 1000 1000 demo_logged_in")
  from logged_in_first_check[OF _ _ _ _ _ _ cb, of 2000000 1010]
  have wb: "await demo_platform 1010 pb b1 = Some (Inr True, b1)"
    by (simp add: demo_logged_in_fields)
  have session: "authenticate demo_platform demo_args 1000 1000 1010 demo_logged_in
                   = Some (Inr True, b1)"
    using checked[OF conjI[OF cb wb]] by simp
  obtain pc c1 where cc: "userSessionExists demo_platform JUndefined 1000 1000 demo_replay = (pc, c1)"
    by (cases "userSessionExists demo_platform JUndefined 1000 1000 demo_replay")
  from replay_first_check[OF demo_replay_fields(1-4) cc, of 1010]
  have wc: "await demo_platform 1010 pc c1 = Some (Inl (CodedError ''InvalidNonce''), c1)"
    by simp
  have replay: "authenticate demo_platform demo_args 1000 1000 1010 demo_replay
                  = Some (Inl (CodedError ''InvalidNonce''), c1)"
    using checked[OF conjI[OF cc wc]] by simp
  show ?thesis unfolding forced none session replay using ra by simp
qed

text \<open>
  Claim C7 as stated fails when both identifiers are supplied: no error is raised and
  the request is sent with both.
\<close>

theorem authenticate_both_identifiers_counterexample:
  "map_option fst (authenticate demo_platform
          (demo_args\<lparr>connectionId := JStr ''c1'', tenantLookupIdentifier := JStr ''t1'',
                      force := JBool True\<rparr>) 1000 1000 1010 (demo_page []))
     = Some (Inr False)
   \<and> map_option (requests \<circ> snd) (authenticate demo_platform
          (demo_args\<lparr>connectionId := JStr ''c1'', tenantLookupIdentifier := JStr ''t1'',
                      force := JBool True\<rparr>) 1000 1000 1010 (demo_page []))
     = Some [PostAuthentication (JStr ''https://app.example.com/'') (JStr ''challenge'')
          (JStr ''c1'') (JStr ''t1'') JUndefined (JStr ''app_1'') JUndefined JUndefined JUndefined]"
  by (simp add: authenticate_def authenticate_request_def demo_args_def demo_page_def
        fresh_page_def demo_platform_def TokenStore_clear_def Let_def)

end
